theory Spec2Isabelle
  imports Main "HOL-Library.Sublist"
begin

text \<open>
  The package \<open>awsutils\<close> (file \<open>awsutils.go\<close>, in its later version with
  \<open>UploadBucket\<close>): the check of the stack parameters, the mapping between local paths
  and keys, the download of a bucket into a directory and the upload of a directory into a
  bucket. What the program calls but does not define (the Go library's \<open>path\<close>,
  \<open>regexp\<close> and \<open>filepath.Walk\<close>, the operating system, S3 and its upload manager)
  is either a function written after the library's documented behaviour or a parameter.
\<close>

section \<open>Go values shared by the whole package\<close>

text \<open>
  A Go \<open>error\<close> value is its message, what \<open>err.Error()\<close> returns, or the batch error
  of the S3 upload manager with its code, its message and, for each failed object, the
  original error, the bucket and the key (the text of a batch error is not modelled).
  The upload manager keeps bucket and key as \<open>*string\<close>, the pointers it was given. The
  only strings whose address the program takes are two fields of its one iterator,
  \<open>&iter.bucket\<close> and \<open>&iter.next.key\<close> in \<open>UploadObject\<close>, so a pointer is one of
  these two addresses, and what it points to is read from the iterator (\<open>deref\<close> below).
  \<open>nil\<close> is \<open>None\<close> of \<open>error option\<close>, and a call returning \<open>(v, err)\<close> is a value
  of \<open>error + 'a\<close>. A run-time panic (nil dereference, slice bounds, \<open>session.Must\<close>)
  is a value of its own type, so that a crash of the program is never confused with an
  \<open>error\<close> it returns.
\<close>

datatype stringPtr = IterBucketPtr | IterNextKeyPtr

datatype error =
    Error (message: string)
  | BatchError string string "(error \<times> stringPtr \<times> stringPtr) list"

datatype panic = NilDereference | SliceBoundsOutOfRange | MustPanic error

definition messageClientNotDefined :: string where
  "messageClientNotDefined = ''Aws Client not defined''"

section \<open>Stack parameters: \<open>findMissingParametres\<close>\<close>

text \<open>\<open>strings.Join(elems, sep)\<close>.\<close>

fun strings_Join :: "string list \<Rightarrow> string \<Rightarrow> string" where
  "strings_Join [] sep = []"
| "strings_Join [x] sep = x"
| "strings_Join (x # y # ys) sep = x @ sep @ strings_Join (y # ys) sep"

text \<open>
  \<open>templateParam\<close> is a Go \<open>map[string]*string\<close>: a template parameter name with its
  default value, \<open>nil\<close> when the template gives none. Go iterates a map in an order it
  does not specify, so the map is an association list with distinct keys, iterated in
  list order, and every order is some list. \<open>parameters\<close> is a \<open>map[string]string\<close>
  that is only looked up.
\<close>

definition missingStep ::
  "(string \<rightharpoonup> string) \<Rightarrow> string \<times> string option \<Rightarrow> string list \<Rightarrow> string list" where
  "missingStep parameters kv missing =
     (let key = fst kv; defaultValue = snd kv;
          doesKeyExist = (parameters key \<noteq> None)
      in if \<not> doesKeyExist \<and> defaultValue = None then missing @ [key] else missing)"

definition findMissingParametres ::
  "(string \<times> string option) list \<Rightarrow> (string \<rightharpoonup> string) \<Rightarrow> error option" where
  "findMissingParametres templateParam parameters =
     (let missing = fold (missingStep parameters) templateParam []
      in if length missing = 0 then None
         else Some (Error (''Missing: ['' @ strings_Join missing '','' @ '']'')))"

text \<open>The two maps of \<open>TestFindMissingParametresFail\<close>.\<close>

definition testRequiredParam :: "(string \<times> string option) list" where
  "testRequiredParam =
     [(''key1'', Some ''defValue1''), (''key2'', None), (''key3'', None), (''key4'', None)]"

definition testParameters :: "string \<rightharpoonup> string" where
  "testParameters = [''key2'' \<mapsto> ''value2'']"

section \<open>Paths: \<open>path.Clean\<close>, \<open>path.Join\<close>, \<open>toKey\<close>\<close>

text \<open>
  The program is modelled as built for a Unix system, where \<open>os.PathSeparator\<close> is the
  slash and \<open>filepath.ToSlash\<close> returns its argument; on the other branch it replaces
  every separator by a slash.
\<close>

definition Separator :: char where
  "Separator = CHR ''/''"

definition filepath_ToSlash :: "string \<Rightarrow> string" where
  "filepath_ToSlash path =
     (if Separator = CHR ''/'' then path
      else map (\<lambda>c. if c = Separator then CHR ''/'' else c) path)"

text \<open>The elements of a path between its slashes: \<open>a//b\<close> has the elements a, empty, b.\<close>

fun splitSlash :: "string \<Rightarrow> string list" where
  "splitSlash [] = [[]]"
| "splitSlash (c # cs) =
     (if c = CHR ''/'' then [] # splitSlash cs
      else (case splitSlash cs of [] \<Rightarrow> [[c]] | x # xs \<Rightarrow> (c # x) # xs))"

text \<open>
  \<open>path.Clean\<close> of the Go library reads the path element by element and keeps an output
  buffer: an empty element and \<open>.\<close> are dropped; \<open>..\<close> removes the last element of the
  buffer when that is not itself \<open>..\<close>, is appended when there is nothing to remove and the
  path is not rooted, and is dropped at the root; every other element is appended. The
  buffer is the list \<open>out\<close> of elements written so far; an empty result is \<open>.\<close>.
\<close>

definition cleanStep :: "bool \<Rightarrow> string \<Rightarrow> string list \<Rightarrow> string list" where
  "cleanStep rooted elem out =
     (if elem = [] \<or> elem = ''.'' then out
      else if elem = ''..'' then
        (if out \<noteq> [] \<and> last out \<noteq> ''..'' then butlast out
         else if \<not> rooted then out @ [''..'']
         else out)
      else out @ [elem])"

definition path_Clean :: "string \<Rightarrow> string" where
  "path_Clean path =
     (if path = [] then ''.''
      else let rooted = (hd path = CHR ''/'');
               out = fold (cleanStep rooted) (splitSlash path) [];
               s = (if rooted then ''/'' else []) @ strings_Join out ''/''
           in if s = [] then ''.'' else s)"

text \<open>\<open>path.Join\<close>: the non-empty elements joined by slashes and cleaned; empty when all are.\<close>

definition path_Join :: "string list \<Rightarrow> string" where
  "path_Join elem =
     (let nonEmpty = filter (\<lambda>e. e \<noteq> []) elem
      in if nonEmpty = [] then [] else path_Clean (strings_Join nonEmpty ''/''))"

text \<open>
  \<open>toKey\<close> slices \<open>len(baseDir + "/")\<close> bytes off the file name, whatever they are; the
  slice expression panics when the file name is shorter than that.
\<close>

definition toKey :: "string \<Rightarrow> string \<Rightarrow> panic + string" where
  "toKey baseDir fileName =
     (let dir = filepath_ToSlash fileName;
          n = length (baseDir @ ''/'')
      in if n > length dir then Inl SliceBoundsOutOfRange else Inr (drop n dir))"

text \<open>
  The local file of a key, \<open>fileName := path.Join(baseDir, key)\<close> in \<open>saveObject\<close>; the
  specification calls it \<open>toLocalPath\<close>.
\<close>

definition toLocalPath :: "string \<Rightarrow> string \<Rightarrow> string" where
  "toLocalPath baseDir key = path_Join [baseDir, key]"

text \<open>The composition of the round trip: key of a file, local path of that key, key again.\<close>

definition keyRoundTrip :: "string \<Rightarrow> string \<Rightarrow> panic + string" where
  "keyRoundTrip baseDir F =
     (case toKey baseDir F of
        Inl p \<Rightarrow> Inl p
      | Inr key \<Rightarrow> toKey baseDir (toLocalPath baseDir key))"

text \<open>
  A plain path has only ordinary elements: none empty (so no leading, trailing or double
  slash), none \<open>.\<close> or \<open>..\<close>. A clean directory is a plain path, or a slash and a plain
  path. These are the paths \<open>path.Clean\<close> leaves alone.
\<close>

definition plainElem :: "string \<Rightarrow> bool" where
  "plainElem e = (e \<noteq> [] \<and> e \<noteq> ''.'' \<and> e \<noteq> ''..'')"

definition plainPath :: "string \<Rightarrow> bool" where
  "plainPath p = list_all plainElem (splitSlash p)"

definition cleanDir :: "string \<Rightarrow> bool" where
  "cleanDir b =
     (plainPath b \<or> (case b of [] \<Rightarrow> False | c # b' \<Rightarrow> c = CHR ''/'' \<and> plainPath b'))"

section \<open>Regular expressions: a model of \<open>regexp.Match\<close>\<close>

text \<open>
  \<open>regexp.Match(pattern, b)\<close> of the Go library parses the pattern and, when that
  succeeds, reports whether \<open>b\<close> contains a match. The model covers the patterns written
  with literal characters, a backslash before a punctuation character, \<open>.\<close>, \<open>^\<close>,
  \<open>$\<close>, \<open>|\<close>, groups and the repetitions \<open>*\<close>, \<open>+\<close>, \<open>?\<close> (each with an optional
  \<open>?\<close> for the non-greedy form, which matches the same texts). Outside that fragment
  (character classes, counted repetition, \<open>(?\<close> groups, a backslash before a letter or
  digit, a byte above 127, a pattern longer than 1000 bytes) the model says nothing: the
  result is \<open>None\<close>. The message of a parse error is the library's name for the error,
  without the piece of the pattern that the library quotes after it.
\<close>

datatype regex =
    NoMatch | EmptyMatch | Literal char | AnyCharNotNL | BeginText | EndText
  | Concat regex regex | Alternate regex regex
  | Star regex | Plus regex | Quest regex

fun concatOf :: "regex list \<Rightarrow> regex" where
  "concatOf [] = EmptyMatch"
| "concatOf [r] = r"
| "concatOf (r # rs) = Concat r (concatOf rs)"

fun alternateOf :: "regex list \<Rightarrow> regex" where
  "alternateOf [] = NoMatch"
| "alternateOf [r] = r"
| "alternateOf (r # rs) = Alternate r (alternateOf rs)"

definition isASCII :: "char \<Rightarrow> bool" where
  "isASCII c = ((of_char c :: nat) < 128)"

definition isalnum :: "char \<Rightarrow> bool" where
  "isalnum c = (let n = (of_char c :: nat) in
      (48 \<le> n \<and> n \<le> 57) \<or> (65 \<le> n \<and> n \<le> 90) \<or> (97 \<le> n \<and> n \<le> 122))"

definition repeatOf :: "char \<Rightarrow> regex \<Rightarrow> regex" where
  "repeatOf c r =
     (if c = CHR ''*'' then Star r else if c = CHR ''+'' then Plus r else Quest r)"

text \<open>
  The parser reads the pattern left to right, as the library's does, with a stack of open
  groups; a frame holds the finished alternatives of its group and the items of the
  alternative being read. \<open>lastRepeat\<close> says that the previous token was a repetition: a
  second one directly after it is an error.
\<close>

type_synonym frame = "regex list \<times> regex list"

fun parseLoop :: "frame list \<Rightarrow> bool \<Rightarrow> string \<Rightarrow> (error + regex) option" where
  "parseLoop stack lastRepeat [] =
     (case stack of
        [(alts, seq)] \<Rightarrow> Some (Inr (alternateOf (alts @ [concatOf seq])))
      | _ \<Rightarrow> Some (Inl (Error ''error parsing regexp: missing closing )'')))"
| "parseLoop stack lastRepeat (c # t) =
     (case stack of
        [] \<Rightarrow> None
      | (alts, seq) # outer \<Rightarrow>
          if c = CHR ''('' then
            (case t of
               [] \<Rightarrow> parseLoop (([], []) # stack) False t
             | d # t' \<Rightarrow> if d = CHR ''?'' then None else parseLoop (([], []) # stack) False t)
          else if c = CHR '')'' then
            (case outer of
               [] \<Rightarrow> Some (Inl (Error ''error parsing regexp: unexpected )''))
             | (alts', seq') # outer' \<Rightarrow>
                 parseLoop ((alts', seq' @ [alternateOf (alts @ [concatOf seq])]) # outer')
                   False t)
          else if c = CHR ''|'' then
            parseLoop ((alts @ [concatOf seq], []) # outer) False t
          else if c = CHR ''*'' \<or> c = CHR ''+'' \<or> c = CHR ''?'' then
            (if lastRepeat then
               Some (Inl (Error ''error parsing regexp: invalid nested repetition operator''))
             else if seq = [] then
               Some (Inl (Error
                 ''error parsing regexp: missing argument to repetition operator''))
             else
               (case t of
                  [] \<Rightarrow> parseLoop ((alts, butlast seq @ [repeatOf c (last seq)]) # outer) True t
                | d # t' \<Rightarrow>
                    if d = CHR ''?''
                    then parseLoop ((alts, butlast seq @ [repeatOf c (last seq)]) # outer)
                           True t'
                    else parseLoop ((alts, butlast seq @ [repeatOf c (last seq)]) # outer)
                           True t))
          else if c = CHR ''.'' then parseLoop ((alts, seq @ [AnyCharNotNL]) # outer) False t
          else if c = CHR ''^'' then parseLoop ((alts, seq @ [BeginText]) # outer) False t
          else if c = CHR ''$'' then parseLoop ((alts, seq @ [EndText]) # outer) False t
          else if c = CHR 0x5C then
            (case t of
               [] \<Rightarrow> Some (Inl (Error
                       ''error parsing regexp: trailing backslash at end of expression''))
             | e # t' \<Rightarrow>
                 if isASCII e \<and> \<not> isalnum e
                 then parseLoop ((alts, seq @ [Literal e]) # outer) False t'
                 else None)
          else if c = CHR ''['' \<or> c = CHR ''{'' \<or> \<not> isASCII c then None
          else parseLoop ((alts, seq @ [Literal c]) # outer) False t)"

definition syntax_Parse :: "string \<Rightarrow> (error + regex) option" where
  "syntax_Parse pattern =
     (if length pattern > 1000 then None else parseLoop [([], [])] False pattern)"

fun usesAnyChar :: "regex \<Rightarrow> bool" where
  "usesAnyChar AnyCharNotNL = True"
| "usesAnyChar (Concat a b) = (usesAnyChar a \<or> usesAnyChar b)"
| "usesAnyChar (Alternate a b) = (usesAnyChar a \<or> usesAnyChar b)"
| "usesAnyChar (Star a) = usesAnyChar a"
| "usesAnyChar (Plus a) = usesAnyChar a"
| "usesAnyChar (Quest a) = usesAnyChar a"
| "usesAnyChar _ = False"

text \<open>
  Matching by derivatives. \<open>nullable bt et r\<close>: \<open>r\<close> matches the empty text at a position
  that is the beginning of the text (\<open>bt\<close>) or its end (\<open>et\<close>). \<open>deriv bt c r\<close>: what is
  left of \<open>r\<close> after it reads \<open>c\<close> at such a position. Without flags \<open>^\<close> and \<open>$\<close>
  match at the two ends of the text only, and \<open>.\<close> matches any character but the newline.
\<close>

fun nullable :: "bool \<Rightarrow> bool \<Rightarrow> regex \<Rightarrow> bool" where
  "nullable bt et NoMatch = False"
| "nullable bt et EmptyMatch = True"
| "nullable bt et (Literal c) = False"
| "nullable bt et AnyCharNotNL = False"
| "nullable bt et BeginText = bt"
| "nullable bt et EndText = et"
| "nullable bt et (Concat a b) = (nullable bt et a \<and> nullable bt et b)"
| "nullable bt et (Alternate a b) = (nullable bt et a \<or> nullable bt et b)"
| "nullable bt et (Star a) = True"
| "nullable bt et (Plus a) = nullable bt et a"
| "nullable bt et (Quest a) = True"

fun deriv :: "bool \<Rightarrow> char \<Rightarrow> regex \<Rightarrow> regex" where
  "deriv bt c NoMatch = NoMatch"
| "deriv bt c EmptyMatch = NoMatch"
| "deriv bt c (Literal d) = (if c = d then EmptyMatch else NoMatch)"
| "deriv bt c AnyCharNotNL = (if c = CHR 0x0A then NoMatch else EmptyMatch)"
| "deriv bt c BeginText = NoMatch"
| "deriv bt c EndText = NoMatch"
| "deriv bt c (Concat a b) =
     Alternate (Concat (deriv bt c a) b)
       (if nullable bt False a then deriv bt c b else NoMatch)"
| "deriv bt c (Alternate a b) = Alternate (deriv bt c a) (deriv bt c b)"
| "deriv bt c (Star a) = Concat (deriv bt c a) (Star a)"
| "deriv bt c (Plus a) = Concat (deriv bt c a) (Star a)"
| "deriv bt c (Quest a) = deriv bt c a"

text \<open>\<open>matchPrefix\<close>: a match starts here; \<open>search\<close>: a match starts here or later.\<close>

fun matchPrefix :: "regex \<Rightarrow> bool \<Rightarrow> string \<Rightarrow> bool" where
  "matchPrefix r bt [] = nullable bt True r"
| "matchPrefix r bt (c # cs) = (nullable bt False r \<or> matchPrefix (deriv bt c r) False cs)"

fun search :: "regex \<Rightarrow> bool \<Rightarrow> string \<Rightarrow> bool" where
  "search r bt [] = matchPrefix r bt []"
| "search r bt (c # cs) = (matchPrefix r bt (c # cs) \<or> search r False cs)"

text \<open>
  The library matches UTF-8 runes and the model bytes; they agree unless the expression
  has a \<open>.\<close> and the text a byte above 127, where the model says nothing.
\<close>

definition regexp_Match :: "string \<Rightarrow> string \<Rightarrow> (error + bool) option" where
  "regexp_Match pattern b =
     (case syntax_Parse pattern of
        None \<Rightarrow> None
      | Some (Inl err) \<Rightarrow> Some (Inl err)
      | Some (Inr re) \<Rightarrow>
          if usesAnyChar re \<and> \<not> list_all isASCII b then None
          else Some (Inr (search re True b)))"

text \<open>A matcher follows the library on a pattern, where the model speaks.\<close>

definition followsRegexp :: "(string \<Rightarrow> string \<Rightarrow> error + bool) \<Rightarrow> string \<Rightarrow> bool" where
  "followsRegexp m pattern = (\<forall>b r. regexp_Match pattern b = Some r \<longrightarrow> m pattern b = r)"

section \<open>The world outside the program\<close>

text \<open>
  The program talks to the file system, to S3 and to the log. The state is the regular
  files with their contents and the trace of what the program did, in order: every call
  that lists, makes, opens, transfers or closes something, with the error the call
  returned, every goroutine started, every line logged. (Making a session and the reads of
  \<open>filepath.Walk\<close> leave no event: the first is answered by \<open>session_NewSession\<close>,
  the second by the tree \<open>fileTree\<close>.)
\<close>

datatype event =
    ListObjectsV2Call string
  | MkdirAllCall string "error option"
  | CreateCall string "error option"
  | DownloadCall string string "error option"
  | OpenCall string "error option"
  | UploadCall string string "error option"
  | CloseCall "string option" "error option"
  | GoSaveObject string
  | LogPrintln string

record world =
  disk :: "string \<rightharpoonup> string"
  trace :: "event list"

definition emit :: "event \<Rightarrow> world \<Rightarrow> world" where
  "emit e w = w\<lparr>trace := trace w @ [e]\<rparr>"

text \<open>
  What a call returns is not the program's to decide: each call is a parameter, a function
  of the state in which it is made. \<open>Download\<close> gives the bytes that reached the file and
  the error, if any. A session stands for the S3 client made from it.
\<close>

record S3API =
  ListObjectsV2 :: "world \<Rightarrow> string \<Rightarrow> error + string list"
  Download :: "world \<Rightarrow> string \<Rightarrow> string \<Rightarrow> string \<times> error option"
  Upload :: "world \<Rightarrow> string \<Rightarrow> string \<Rightarrow> string option \<Rightarrow> error option"

text \<open>
  The tree \<open>filepath.Walk\<close> sees: a regular file, a directory with its entries in the
  order \<open>readDirNames\<close> returns them, a directory whose entries cannot be read, and a name
  for which \<open>os.Lstat\<close> fails (a base directory that does not exist is one).
\<close>

datatype fsnode =
    RegularFile
  | Directory "(string \<times> fsnode) list"
  | UnreadableDirectory error
  | NoInfo error

record env =
  regexpMatch :: "string \<Rightarrow> string \<Rightarrow> error + bool"
  session_NewSession :: "string \<Rightarrow> error + S3API"
  os_MkdirAll :: "world \<Rightarrow> string \<Rightarrow> error option"
  os_Create :: "world \<Rightarrow> string \<Rightarrow> error option"
  os_Open :: "world \<Rightarrow> string \<Rightarrow> error option"
  file_Close :: "world \<Rightarrow> string \<Rightarrow> error option"
  fileTree :: "string \<Rightarrow> fsnode"

section \<open>Download: \<open>DownloadBucket\<close>, \<open>saveObject\<close>, \<open>mkDirIfNeeded\<close>\<close>

text \<open>\<open>strings.LastIndex(s, substr)\<close>: the index of the last instance, or -1.\<close>

fun strings_LastIndex :: "string \<Rightarrow> string \<Rightarrow> int" where
  "strings_LastIndex [] substr = (if substr = [] then 0 else - 1)"
| "strings_LastIndex (c # cs) substr =
     (let i = strings_LastIndex cs substr
      in if i \<noteq> - 1 then i + 1
         else if take (length substr) (c # cs) = substr then 0 else - 1)"

definition mkDirIfNeeded :: "env \<Rightarrow> string \<Rightarrow> string \<Rightarrow> world \<Rightarrow> error option \<times> world" where
  "mkDirIfNeeded env baseDir key w =
     (let lastIdx = strings_LastIndex key ''/''
      in if lastIdx \<noteq> - 1 then
           (let prefix = take (nat lastIdx) key;
                dirPath = path_Join [baseDir, prefix];
                err = os_MkdirAll env w dirPath
            in (err, emit (MkdirAllCall dirPath err) w))
         else (None, w))"

text \<open>
  \<open>saveObject\<close>: \<open>os.Create\<close> makes the file, or truncates it; the download then writes
  into it; the deferred \<open>Close\<close> runs last, and nothing is done with its result.
\<close>

definition saveObject :: "env \<Rightarrow> S3API \<Rightarrow> string \<Rightarrow> string \<Rightarrow> string \<Rightarrow> world \<Rightarrow> world" where
  "saveObject env sess bucket baseDir key w =
     (let fileName = path_Join [baseDir, key];
          err = os_Create env w fileName;
          w1 = emit (CreateCall fileName err) w
      in case err of
           Some e \<Rightarrow> emit (LogPrintln (''Unable to open file'' @ message e)) w1
         | None \<Rightarrow>
             (let w2 = w1\<lparr>disk := (disk w1)(fileName \<mapsto> [])\<rparr>;
                  written = fst (Download sess w2 bucket key);
                  derr = snd (Download sess w2 bucket key);
                  w3 = emit (DownloadCall bucket key derr)
                         (w2\<lparr>disk := (disk w2)(fileName \<mapsto> written)\<rparr>);
                  w4 = (case derr of
                          Some e \<Rightarrow> emit (LogPrintln (''Unable to download item:'' @ message e)) w3
                        | None \<Rightarrow> w3)
              in emit (CloseCall (Some fileName) (file_Close env w4 fileName)) w4))"

text \<open>
  The body of the loop over \<open>result.Contents\<close>. The goroutines of \<open>go saveObject\<close> are
  run one after the other, each when it is started: one of the schedules of the program.
  \<open>wg.Wait()\<close> makes \<open>DownloadBucket\<close> return after all of them.
\<close>

definition downloadStep ::
  "env \<Rightarrow> S3API \<Rightarrow> string \<Rightarrow> string \<Rightarrow> string \<Rightarrow> string \<Rightarrow> world \<Rightarrow> world" where
  "downloadStep env sess baseDir bucket excludePatten key w =
     (case regexpMatch env excludePatten key of
        Inl err \<Rightarrow> w
      | Inr matched \<Rightarrow>
          if matched then w
          else (case mkDirIfNeeded env baseDir key w of
                  (Some err, w1) \<Rightarrow> w1
                | (None, w1) \<Rightarrow>
                    saveObject env sess bucket baseDir key (emit (GoSaveObject key) w1)))"

definition DownloadBucket ::
  "env \<Rightarrow> string \<Rightarrow> string \<Rightarrow> string \<Rightarrow> string \<Rightarrow> world \<Rightarrow> (panic + error option) \<times> world" where
  "DownloadBucket env baseDir bucket region excludePatten w =
     (case session_NewSession env region of
        Inl e \<Rightarrow> (Inl (MustPanic e), w)
      | Inr sess \<Rightarrow>
          (case ListObjectsV2 sess w bucket of
             Inl err \<Rightarrow> (Inr (Some err), emit (ListObjectsV2Call bucket) w)
           | Inr contents \<Rightarrow>
               (Inr None,
                fold (downloadStep env sess baseDir bucket excludePatten) contents
                  (emit (ListObjectsV2Call bucket) w))))"

text \<open>
  What the trace says of a batch: the keys for which a goroutine was started, the downloads
  that returned without error, and the lines logged (the only record of a failure there is).
\<close>

fun startedKeys :: "event list \<Rightarrow> string list" where
  "startedKeys [] = []"
| "startedKeys (GoSaveObject k # es) = k # startedKeys es"
| "startedKeys (e # es) = startedKeys es"

fun succeeded :: "event list \<Rightarrow> nat" where
  "succeeded [] = 0"
| "succeeded (DownloadCall b k None # es) = Suc (succeeded es)"
| "succeeded (e # es) = succeeded es"

fun failed :: "event list \<Rightarrow> string list" where
  "failed [] = []"
| "failed (LogPrintln l # es) = l # failed es"
| "failed (e # es) = failed es"

text \<open>
  Further: the calls of \<open>os.MkdirAll\<close> that returned an error (the key is then dropped
  without a line of the log), and the files \<open>os.Create\<close> was called for.
\<close>

fun mkdirFailed :: "event list \<Rightarrow> nat" where
  "mkdirFailed [] = 0"
| "mkdirFailed (MkdirAllCall p (Some err) # es) = Suc (mkdirFailed es)"
| "mkdirFailed (e # es) = mkdirFailed es"

fun createdFiles :: "event list \<Rightarrow> string list" where
  "createdFiles [] = []"
| "createdFiles (CreateCall p err # es) = p # createdFiles es"
| "createdFiles (e # es) = createdFiles es"

text \<open>
  The listing filter: a key is kept when the match returns no error and \<open>false\<close>. For a
  pattern that parses these are the keys the pattern does not match. The directory of a
  key can be made when \<open>mkDirIfNeeded\<close> returns nil for it in every state (it always
  does for a key without a slash).
\<close>

definition keptKey :: "env \<Rightarrow> string \<Rightarrow> string \<Rightarrow> bool" where
  "keptKey env excludePatten key = (regexpMatch env excludePatten key = Inr False)"

definition dirMade :: "env \<Rightarrow> string \<Rightarrow> string \<Rightarrow> bool" where
  "dirMade env baseDir key = (\<forall>w. fst (mkDirIfNeeded env baseDir key w) = None)"

section \<open>Upload: \<open>getFiles\<close>, the iterator, \<open>UploadBucket\<close>\<close>

datatype FileInfo = FileInfo (IsDir: bool)

type_synonym 'st WalkFunc =
  "string \<Rightarrow> FileInfo option \<Rightarrow> error option \<Rightarrow> 'st \<Rightarrow> panic + (error option \<times> 'st)"

definition SkipDir :: error where
  "SkipDir = Error ''skip this directory''"

definition isDirNode :: "fsnode \<Rightarrow> bool" where
  "isDirNode n = (case n of Directory es \<Rightarrow> True | UnreadableDirectory e \<Rightarrow> True | _ \<Rightarrow> False)"

definition isNoInfo :: "fsnode \<Rightarrow> bool" where
  "isNoInfo n = (case n of NoInfo e \<Rightarrow> True | _ \<Rightarrow> False)"

text \<open>
  \<open>filepath.Walk\<close> of the Go library, with the state the callback closes over passed
  along. The callback gets a nil \<open>info\<close> exactly when \<open>os.Lstat\<close> failed; for a directory
  it is called once, with the error of reading the entries if there is one, and the walk
  goes into the directory when both that error and the callback's are nil. A callback
  error ends the walk, but for \<open>SkipDir\<close> on a directory (\<open>SkipAll\<close> of later
  versions of the library is left out: the callback here returns neither). On Unix
  \<open>filepath.Join\<close> is \<open>path.Join\<close>.
\<close>

fun walk :: "'st WalkFunc \<Rightarrow> string \<Rightarrow> fsnode \<Rightarrow> 'st \<Rightarrow> panic + (error option \<times> 'st)"
  and walkNames ::
    "'st WalkFunc \<Rightarrow> string \<Rightarrow> (string \<times> fsnode) list \<Rightarrow> 'st \<Rightarrow> panic + (error option \<times> 'st)"
where
  "walk walkFn path RegularFile st = walkFn path (Some (FileInfo False)) None st"
| "walk walkFn path (NoInfo e) st = walkFn path None (Some e) st"
| "walk walkFn path (UnreadableDirectory e) st = walkFn path (Some (FileInfo True)) (Some e) st"
| "walk walkFn path (Directory entries) st =
     (case walkFn path (Some (FileInfo True)) None st of
        Inl p \<Rightarrow> Inl p
      | Inr (err1, st1) \<Rightarrow>
          if err1 \<noteq> None then Inr (err1, st1) else walkNames walkFn path entries st1)"
| "walkNames walkFn path [] st = Inr (None, st)"
| "walkNames walkFn path (entry # rest) st =
     (case walk walkFn (path_Join [path, fst entry]) (snd entry) st of
        Inl p \<Rightarrow> Inl p
      | Inr (None, st1) \<Rightarrow> walkNames walkFn path rest st1
      | Inr (Some err, st1) \<Rightarrow>
          if err = SkipDir \<and> (isDirNode (snd entry) \<or> isNoInfo (snd entry))
          then walkNames walkFn path rest st1
          else Inr (Some err, st1))"

definition filepath_Walk ::
  "'st WalkFunc \<Rightarrow> string \<Rightarrow> fsnode \<Rightarrow> 'st \<Rightarrow> panic + (error option \<times> 'st)" where
  "filepath_Walk walkFn root node st =
     (case walk walkFn root node st of
        Inl p \<Rightarrow> Inl p
      | Inr (err, st1) \<Rightarrow> Inr (if err = Some SkipDir then None else err, st1))"

text \<open>
  The callback of \<open>getFiles\<close> reads \<open>info.IsDir()\<close> whatever \<open>err\<close> is, which is a nil
  dereference when \<open>info\<close> is nil, and always returns nil. \<open>getFiles\<close> has no error
  result: it logs the error of the walk and returns the files.
\<close>

definition getFilesWalkFn :: "string list WalkFunc" where
  "getFilesWalkFn path info err files =
     (case info of
        None \<Rightarrow> Inl NilDereference
      | Some i \<Rightarrow> Inr (None, if \<not> IsDir i then files @ [path] else files))"

definition getFiles :: "env \<Rightarrow> string \<Rightarrow> world \<Rightarrow> (panic + string list) \<times> world" where
  "getFiles env root w =
     (case filepath_Walk getFilesWalkFn root (fileTree env root) [] of
        Inl p \<Rightarrow> (Inl p, w)
      | Inr (err, files) \<Rightarrow>
          (Inr files, case err of None \<Rightarrow> w | Some e \<Rightarrow> emit (LogPrintln (message e)) w))"

record nextObject =
  next_path :: string
  next_key :: string
  next_f :: "string option"

record directoryIterator =
  filePaths :: "string list"
  iterBucket :: string
  iterBaseDir :: string
  iterNext :: nextObject
  iterErr :: "error option"

definition createIterator ::
  "env \<Rightarrow> string \<Rightarrow> string \<Rightarrow> world \<Rightarrow> (panic + directoryIterator) \<times> world" where
  "createIterator env baseDir bucket w =
     (case getFiles env baseDir w of
        (Inl p, w1) \<Rightarrow> (Inl p, w1)
      | (Inr paths, w1) \<Rightarrow>
          (Inr \<lparr>filePaths = paths, iterBucket = bucket, iterBaseDir = baseDir,
                iterNext = \<lparr>next_path = [], next_key = [], next_f = None\<rparr>,
                iterErr = None\<rparr>, w1))"

text \<open>
  \<open>Next\<close>: an open file is the handle \<open>Some path\<close>, a failed \<open>os.Open\<close> leaves the nil
  handle. The result is \<open>true && iter.Err() == nil\<close>. (The fields \<open>bucket\<close>,
  \<open>baseDir\<close>, \<open>next\<close> and \<open>err\<close> of the iterator are \<open>iterBucket\<close>, \<open>iterBaseDir\<close>,
  \<open>iterNext\<close> and \<open>iterErr\<close> here, and those of \<open>next\<close> have its name in front.)
\<close>

definition Next ::
  "env \<Rightarrow> directoryIterator \<Rightarrow> world \<Rightarrow> (panic + bool \<times> directoryIterator) \<times> world" where
  "Next env iter w =
     (if length (filePaths iter) = 0
      then (Inr (False, iter\<lparr>iterNext := (iterNext iter)\<lparr>next_f := None\<rparr>\<rparr>), w)
      else
        (let p = hd (filePaths iter);
             err = os_Open env w p;
             w1 = emit (OpenCall p err) w;
             f = (if err = None then Some p else None)
         in case toKey (iterBaseDir iter) p of
              Inl pn \<Rightarrow> (Inl pn, w1)
            | Inr key \<Rightarrow>
                (Inr (err = None,
                      iter\<lparr>iterErr := err,
                           iterNext := \<lparr>next_path = p, next_key = key, next_f = f\<rparr>,
                           filePaths := tl (filePaths iter)\<rparr>), w1)))"

text \<open>
  \<open>UploadObject\<close> gives the upload manager the addresses of the iterator's bucket and of
  its current key, not the strings, and the file. Every later \<open>Next\<close> writes the key of
  its file into the field the second address points to.
\<close>

definition deref :: "directoryIterator \<Rightarrow> stringPtr \<Rightarrow> string" where
  "deref iter p =
     (case p of IterBucketPtr \<Rightarrow> iterBucket iter | IterNextKeyPtr \<Rightarrow> next_key (iterNext iter))"

definition UploadObject :: "directoryIterator \<Rightarrow> stringPtr \<times> stringPtr \<times> string option" where
  "UploadObject iter = (IterBucketPtr, IterNextKeyPtr, next_f (iterNext iter))"

text \<open>
  \<open>UploadWithIterator\<close> of the S3 upload manager: while \<open>Next\<close> is true it uploads the
  object of the iterator, reading bucket and key through the pointers at that moment, and
  runs its \<open>After\<close>, here \<open>f.Close()\<close>; it collects the error of either with the two
  pointers of the object. At the end it returns the collected errors as one batch error,
  or nil. It never reads \<open>iter.Err()\<close>. \<open>Close\<close> on a nil file returns an error. The
  loop also gives the iterator as its last \<open>Next\<close> left it: that is what the pointers
  in the returned records point into.
\<close>

type_synonym uploadError = "error \<times> stringPtr \<times> stringPtr"

definition closeFile :: "env \<Rightarrow> world \<Rightarrow> string option \<Rightarrow> error option" where
  "closeFile env w f =
     (case f of None \<Rightarrow> Some (Error ''invalid argument'') | Some p \<Rightarrow> file_Close env w p)"

definition uploadOne ::
  "env \<Rightarrow> S3API \<Rightarrow> directoryIterator \<Rightarrow> world \<Rightarrow> uploadError list \<Rightarrow> uploadError list \<times> world" where
  "uploadOne env sess iter w errs =
     (let object = UploadObject iter;
          bucket = fst object;
          key = fst (snd object);
          f = snd (snd object);
          uerr = Upload sess w (deref iter bucket) (deref iter key) f;
          w1 = emit (UploadCall (deref iter bucket) (deref iter key) uerr) w;
          errs1 = (case uerr of None \<Rightarrow> errs | Some e \<Rightarrow> errs @ [(e, bucket, key)]);
          cerr = closeFile env w1 f;
          w2 = emit (CloseCall f cerr) w1;
          errs2 = (case cerr of None \<Rightarrow> errs1 | Some e \<Rightarrow> errs1 @ [(e, bucket, key)])
      in (errs2, w2))"

function uploadLoop ::
  "env \<Rightarrow> S3API \<Rightarrow> directoryIterator \<Rightarrow> world \<Rightarrow> uploadError list
     \<Rightarrow> (panic + uploadError list \<times> directoryIterator) \<times> world" where
  "uploadLoop env sess iter w errs =
     (case Next env iter w of
        (Inl p, w1) \<Rightarrow> (Inl p, w1)
      | (Inr (hasNext, iter1), w1) \<Rightarrow>
          if \<not> hasNext then (Inr (errs, iter1), w1)
          else uploadLoop env sess iter1 (snd (uploadOne env sess iter1 w1 errs))
                 (fst (uploadOne env sess iter1 w1 errs)))"
  by pat_completeness auto
termination
  by (relation "measure (\<lambda>(env, sess, iter, w, errs). length (filePaths iter))")
     (auto simp: Next_def Let_def split: if_splits sum.splits)

declare uploadLoop.simps [simp del]

definition UploadWithIterator ::
  "env \<Rightarrow> S3API \<Rightarrow> directoryIterator \<Rightarrow> world \<Rightarrow> (panic + error option) \<times> world" where
  "UploadWithIterator env sess iter w =
     (case uploadLoop env sess iter w [] of
        (Inl p, w1) \<Rightarrow> (Inl p, w1)
      | (Inr (errs, iter1), w1) \<Rightarrow>
          (Inr (if length errs > 0
                then Some (BatchError ''BatchedUploadIncomplete''
                             ''some objects have failed to upload.'' errs)
                else None), w1))"

text \<open>
  What a caller that reads \<open>*Bucket\<close> and \<open>*Key\<close> of the returned records sees, the
  iterator being as the loop left it.
\<close>

definition readErrors :: "directoryIterator \<Rightarrow> uploadError list \<Rightarrow> (error \<times> string \<times> string) list" where
  "readErrors iter errs = map (\<lambda>(e, bucket, key). (e, deref iter bucket, deref iter key)) errs"

definition UploadBucket ::
  "env \<Rightarrow> string \<Rightarrow> string \<Rightarrow> string \<Rightarrow> world \<Rightarrow> (panic + error option) \<times> world" where
  "UploadBucket env baseDir bucket region w =
     (case session_NewSession env region of
        Inl e \<Rightarrow> (Inl (MustPanic e), w)
      | Inr sess \<Rightarrow>
          (case createIterator env baseDir bucket w of
             (Inl p, w1) \<Rightarrow> (Inl p, w1)
           | (Inr iter, w1) \<Rightarrow> UploadWithIterator env sess iter w1))"

section \<open>The transfer context \<open>Bucket\<close>\<close>

text \<open>
  Modelled from the spec: the transfer context, that is the type \<open>Bucket\<close>, its
  constructor \<open>NewBucket\<close> and its methods, which \<open>TestDownloadEmptyBucket\<close> calls, is
  missing from the source files, which have the functions \<open>DownloadBucket\<close> and
  \<open>UploadBucket\<close> only. The specification: a transfer context holds the store name, the
  base directory and the client handle; a transfer operation on a context with no
  configured client returns the error "client not configured" (the test reads the message
  \<open>messageClientNotDefined\<close>) at once, with no network and no file system call. With a
  client, the methods are taken to do what the functions of the source do with the client
  they make; an absent exclusion pattern excludes no key.
\<close>

record Bucket =
  bucketClient :: "S3API option"
  bucketBaseDir :: string
  bucketName :: string

text \<open>Modelled from the spec: the constructor, as the test calls it.\<close>

definition NewBucket :: "S3API \<Rightarrow> string \<Rightarrow> string \<Rightarrow> Bucket" where
  "NewBucket client baseDir name =
     \<lparr>bucketClient = Some client, bucketBaseDir = baseDir, bucketName = name\<rparr>"

text \<open>
  Modelled from the spec: the method \<open>DownloadBucket\<close> of \<open>Bucket\<close>, missing from the
  source files; the test calls it with a nil pattern.
\<close>

definition Bucket_DownloadBucket ::
  "env \<Rightarrow> Bucket \<Rightarrow> string option \<Rightarrow> world \<Rightarrow> (panic + error option) \<times> world" where
  "Bucket_DownloadBucket env b excludePattern w =
     (case bucketClient b of
        None \<Rightarrow> (Inr (Some (Error messageClientNotDefined)), w)
      | Some client \<Rightarrow>
          (case excludePattern of
             None \<Rightarrow>
               DownloadBucket
                 (env\<lparr>session_NewSession := (\<lambda>region. Inr client),
                      regexpMatch := (\<lambda>pattern key. Inr False)\<rparr>)
                 (bucketBaseDir b) (bucketName b) [] [] w
           | Some pattern \<Rightarrow>
               DownloadBucket (env\<lparr>session_NewSession := (\<lambda>region. Inr client)\<rparr>)
                 (bucketBaseDir b) (bucketName b) [] pattern w))"

text \<open>
  Modelled from the spec: the upload method of \<open>Bucket\<close>, missing from the source files.
\<close>

definition Bucket_UploadBucket ::
  "env \<Rightarrow> Bucket \<Rightarrow> world \<Rightarrow> (panic + error option) \<times> world" where
  "Bucket_UploadBucket env b w =
     (case bucketClient b of
        None \<Rightarrow> (Inr (Some (Error messageClientNotDefined)), w)
      | Some client \<Rightarrow>
          UploadBucket (env\<lparr>session_NewSession := (\<lambda>region. Inr client)\<rparr>)
            (bucketBaseDir b) (bucketName b) [] w)"

section \<open>Concrete environments\<close>

text \<open>
  Environments on which the properties below are run: a matcher that follows the model of
  \<open>regexp.Match\<close> (and reports no match where the model is silent), a client that lists
  the given keys and an operating system where every call succeeds, over a given tree.
\<close>

definition goMatch :: "string \<Rightarrow> string \<Rightarrow> error + bool" where
  "goMatch pattern b = (case regexp_Match pattern b of Some r \<Rightarrow> r | None \<Rightarrow> Inr False)"

definition okClient :: "string list \<Rightarrow> S3API" where
  "okClient keys =
     \<lparr>ListObjectsV2 = (\<lambda>w bucket. Inr keys),
      Download = (\<lambda>w bucket key. (''content'', None)),
      Upload = (\<lambda>w bucket key f. None)\<rparr>"

definition okEnv :: "string list \<Rightarrow> (string \<Rightarrow> fsnode) \<Rightarrow> env" where
  "okEnv keys tree =
     \<lparr>regexpMatch = goMatch,
      session_NewSession = (\<lambda>region. Inr (okClient keys)),
      os_MkdirAll = (\<lambda>w p. None),
      os_Create = (\<lambda>w p. None),
      os_Open = (\<lambda>w p. None),
      file_Close = (\<lambda>w p. None),
      fileTree = tree\<rparr>"

definition noTree :: "string \<Rightarrow> fsnode" where
  "noTree root = NoInfo (Error ''no such file or directory'')"

definition emptyWorld :: world where
  "emptyWorld = \<lparr>disk = Map.empty, trace = []\<rparr>"

definition permissionDenied :: error where
  "permissionDenied = Error ''permission denied''"

definition mkdirFailsEnv :: "string list \<Rightarrow> env" where
  "mkdirFailsEnv keys = (okEnv keys noTree)\<lparr>os_MkdirAll := (\<lambda>w p. Some permissionDenied)\<rparr>"

definition brokenClient :: "string list \<Rightarrow> S3API" where
  "brokenClient keys =
     (okClient keys)\<lparr>Download := (\<lambda>w bucket key. (''con'', Some (Error ''connection reset'')))\<rparr>"

definition downloadFailsEnv :: "string list \<Rightarrow> env" where
  "downloadFailsEnv keys =
     (okEnv keys noTree)\<lparr>session_NewSession := (\<lambda>region. Inr (brokenClient keys))\<rparr>"

definition unreadableTree :: "string \<Rightarrow> fsnode" where
  "unreadableTree root = UnreadableDirectory permissionDenied"

definition twoFilesTree :: "string \<Rightarrow> fsnode" where
  "twoFilesTree root = Directory [(''a.txt'', RegularFile), (''b.txt'', RegularFile)]"

definition openFailsEnv :: env where
  "openFailsEnv =
     (okEnv [] twoFilesTree)\<lparr>os_Open := (\<lambda>w p. if p = ''data/a.txt'' then Some permissionDenied else None)\<rparr>"

definition uploadFailsClient :: S3API where
  "uploadFailsClient =
     (okClient [])\<lparr>Upload := (\<lambda>w bucket key f. if key = ''a.txt'' then Some (Error ''access denied'') else None)\<rparr>"

definition uploadFailsEnv :: env where
  "uploadFailsEnv = (okEnv [] twoFilesTree)\<lparr>session_NewSession := (\<lambda>region. Inr uploadFailsClient)\<rparr>"

definition nestedTree :: "string \<Rightarrow> fsnode" where
  "nestedTree root =
     Directory [(''a'', Directory [(''b.txt'', RegularFile)]), (''c.txt'', RegularFile)]"

definition twoFilesIterator :: directoryIterator where
  "twoFilesIterator =
     \<lparr>filePaths = [''data/a.txt'', ''data/b.txt''], iterBucket = ''bucket'',
      iterBaseDir = ''data'',
      iterNext = \<lparr>next_path = [], next_key = [], next_f = None\<rparr>, iterErr = None\<rparr>"

definition zeroBucket :: Bucket where
  "zeroBucket = \<lparr>bucketClient = None, bucketBaseDir = [], bucketName = []\<rparr>"

section \<open>An invariant of the download\<close>

text \<open>Every key whose download was attempted has its local file on the disk.\<close>

definition downloadedFilesKept :: "string \<Rightarrow> world \<Rightarrow> bool" where
  "downloadedFilesKept baseDir w =
     (\<forall>b k r. DownloadCall b k r \<in> set (trace w) \<longrightarrow> disk w (path_Join [baseDir, k]) \<noteq> None)"

section \<open>The iterator after a step\<close>

text \<open>
  The iterator as \<open>Next\<close> leaves it after failing to open \<open>p\<close>, and after opening it,
  \<open>key\<close> being the key of \<open>p\<close>.
\<close>

definition afterFailedOpen ::
  "directoryIterator \<Rightarrow> string \<Rightarrow> string \<Rightarrow> error \<Rightarrow> directoryIterator" where
  "afterFailedOpen iter p key e =
     iter\<lparr>iterErr := Some e,
          iterNext := \<lparr>next_path = p, next_key = key, next_f = None\<rparr>,
          filePaths := tl (filePaths iter)\<rparr>"

definition afterOpen :: "directoryIterator \<Rightarrow> string \<Rightarrow> string \<Rightarrow> directoryIterator" where
  "afterOpen iter p key =
     iter\<lparr>iterErr := None,
          iterNext := \<lparr>next_path = p, next_key = key, next_f = Some p\<rparr>,
          filePaths := tl (filePaths iter)\<rparr>"

section \<open>Properties of \<open>findMissingParametres\<close>\<close>

lemma fold_missingStep:
  "fold (missingStep ps) tp acc =
     acc @ map fst (filter (\<lambda>kv. ps (fst kv) = None \<and> snd kv = None) tp)"
  by (induction tp arbitrary: acc) (simp_all add: missingStep_def Let_def)

lemma findMissingParametres_set:
  "(findMissingParametres tp ps \<noteq> None) =
     (\<exists>kv \<in> set tp. ps (fst kv) = None \<and> snd kv = None)"
  by (auto simp: findMissingParametres_def fold_missingStep Let_def filter_empty_conv)

lemma findMissingParametres_test_message:
  "findMissingParametres testRequiredParam testParameters
     = Some (Error ''Missing: [key3,key4]'')"
  by (simp add: findMissingParametres_def testRequiredParam_def testParameters_def
      missingStep_def Let_def)

text \<open>
  C8. \<open>findMissingParametres templateParam parameters\<close> returns an error if and only if
  some key of the required set \<open>templateParam\<close> has a \<open>nil\<close> default and is absent from
  the caller's \<open>parameters\<close>; otherwise (every such key has a caller value or a non-nil
  default) it returns \<open>nil\<close>. The keys of a Go map are distinct, which is the hypothesis.
\<close>

theorem findMissingParametres_iff:
  assumes "distinct (map fst templateParam)"
  shows "((findMissingParametres templateParam parameters \<noteq> None)
            = (\<exists>key. map_of templateParam key = Some None \<and> parameters key = None))
       \<and> ((\<forall>key. map_of templateParam key = Some None \<longrightarrow> parameters key \<noteq> None)
            \<longrightarrow> findMissingParametres templateParam parameters = None)"
proof -
  have mem: "\<And>k d. (map_of templateParam k = Some d) = ((k, d) \<in> set templateParam)"
    using assms by (simp add: map_of_eq_Some_iff)
  have iff: "(findMissingParametres templateParam parameters \<noteq> None)
           = (\<exists>key. map_of templateParam key = Some None \<and> parameters key = None)"
    unfolding findMissingParametres_set mem by force
  then show ?thesis by blast
qed

theorem findMissingParametres_iff_witness:
  "distinct (map fst testRequiredParam)
   \<and> findMissingParametres testRequiredParam testParameters \<noteq> None
   \<and> map_of testRequiredParam ''key3'' = Some None \<and> testParameters ''key3'' = None
   \<and> findMissingParametres testRequiredParam
        (testParameters(''key3'' \<mapsto> ''v'', ''key4'' \<mapsto> ''w'')) = None"
proof -
  have d: "distinct (map fst testRequiredParam)"
    by (simp add: testRequiredParam_def)
  have k3: "map_of testRequiredParam ''key3'' = Some None \<and> testParameters ''key3'' = None"
    by (simp add: testRequiredParam_def testParameters_def)
  have cov: "\<forall>key. map_of testRequiredParam key = Some None \<longrightarrow>
      (testParameters(''key3'' \<mapsto> ''v'', ''key4'' \<mapsto> ''w'')) key \<noteq> None"
    by (simp add: testRequiredParam_def testParameters_def)
  from findMissingParametres_iff [OF d, of testParameters] k3
  have "findMissingParametres testRequiredParam testParameters \<noteq> None" by blast
  moreover from findMissingParametres_iff [OF d] cov
  have "findMissingParametres testRequiredParam
          (testParameters(''key3'' \<mapsto> ''v'', ''key4'' \<mapsto> ''w'')) = None"
    by blast
  ultimately show ?thesis using d k3 by blast
qed

section \<open>Properties of the path mapping\<close>

lemma splitSlash_nonempty [simp]: "splitSlash p \<noteq> []"
  by (induction p) (auto split: list.splits)

lemma splitSlash_append:
  "splitSlash (a @ CHR ''/'' # b) = splitSlash a @ splitSlash b"
  by (induction a) (auto split: list.splits)

lemma strings_Join_Cons:
  "xs \<noteq> [] \<Longrightarrow> strings_Join (x # xs) sep = x @ sep @ strings_Join xs sep"
  by (cases xs) simp_all

lemma strings_Join_splitSlash: "strings_Join (splitSlash p) ''/'' = p"
proof (induction p)
  case Nil
  show ?case by simp
next
  case (Cons c cs)
  show ?case
  proof (cases "c = CHR ''/''")
    case True
    with Cons show ?thesis by (simp add: strings_Join_Cons)
  next
    case False
    obtain x xs where sp: "splitSlash cs = x # xs"
      by (cases "splitSlash cs") simp_all
    show ?thesis
    proof (cases xs)
      case Nil
      with Cons sp False show ?thesis by simp
    next
      case (Cons y ys)
      with Cons.IH sp False show ?thesis by simp
    qed
  qed
qed

lemma fold_cleanStep_plain:
  "list_all plainElem cs \<Longrightarrow> fold (cleanStep r) cs out = out @ cs"
  by (induction cs arbitrary: out) (simp_all add: cleanStep_def plainElem_def)

lemma plainPath_hd: "plainPath p \<Longrightarrow> p \<noteq> [] \<and> hd p \<noteq> CHR ''/''"
  by (cases p) (auto simp: plainPath_def plainElem_def)

lemma path_Clean_plain: "plainPath p \<Longrightarrow> path_Clean p = p"
  using plainPath_hd [of p]
  by (simp add: path_Clean_def Let_def plainPath_def fold_cleanStep_plain strings_Join_splitSlash)

lemma path_Clean_rooted: "plainPath p \<Longrightarrow> path_Clean (CHR ''/'' # p) = CHR ''/'' # p"
  by (simp add: path_Clean_def Let_def plainPath_def cleanStep_def fold_cleanStep_plain
      strings_Join_splitSlash)

lemma plainPath_append:
  "plainPath a \<Longrightarrow> plainPath b \<Longrightarrow> plainPath (a @ CHR ''/'' # b)"
  by (simp add: plainPath_def splitSlash_append)

lemma path_Clean_cleanDir: "cleanDir p \<Longrightarrow> path_Clean p = p"
  by (auto simp: cleanDir_def path_Clean_plain path_Clean_rooted split: list.splits)

lemma cleanDir_append:
  assumes "cleanDir a" and "plainPath b"
  shows "cleanDir (a @ CHR ''/'' # b)"
proof (cases "plainPath a")
  case True
  then show ?thesis
    using assms(2) by (simp add: cleanDir_def plainPath_append)
next
  case False
  then obtain a' where a: "a = CHR ''/'' # a'" and p: "plainPath a'"
    using assms(1) by (auto simp: cleanDir_def split: list.splits)
  have "plainPath (a' @ CHR ''/'' # b)"
    using p assms(2) by (rule plainPath_append)
  then show ?thesis
    by (simp add: cleanDir_def a)
qed

lemma cleanDir_nonempty: "cleanDir a \<Longrightarrow> a \<noteq> []"
  using plainPath_hd by (auto simp: cleanDir_def)

lemma toLocalPath_clean:
  assumes "cleanDir baseDir" "plainPath key"
  shows "toLocalPath baseDir key = baseDir @ ''/'' @ key"
proof -
  have "baseDir \<noteq> []" "key \<noteq> []"
    using assms cleanDir_nonempty plainPath_hd by auto
  then have "toLocalPath baseDir key = path_Clean (baseDir @ CHR ''/'' # key)"
    by (simp add: toLocalPath_def path_Join_def)
  then show ?thesis
    using path_Clean_cleanDir [OF cleanDir_append [OF assms]] by simp
qed

lemma toKey_under: "toKey baseDir (baseDir @ ''/'' @ rest) = Inr rest"
  by (simp add: toKey_def filepath_ToSlash_def Separator_def)

text \<open>
  For a clean base directory (ordinary elements joined by single slashes, with or without
  a leading slash) and \<open>F = baseDir/rest\<close> with a plain relative path \<open>rest\<close>, the key
  of \<open>F\<close> is \<open>rest\<close> and the local path of that key is \<open>F\<close> again.
\<close>

lemma toKey_roundtrip_clean:
  assumes "cleanDir baseDir" and "plainPath rest" and "F = baseDir @ ''/'' @ rest"
  shows "toKey baseDir F = Inr rest
       \<and> toLocalPath baseDir rest = F
       \<and> keyRoundTrip baseDir F = toKey baseDir F"
  using assms toLocalPath_clean [OF assms(1,2)] toKey_under [of baseDir rest]
  by (simp add: keyRoundTrip_def)

text \<open>
  C6. The claim: for every file path \<open>F\<close> under \<open>baseDir\<close>, that is \<open>F = baseDir/rest\<close>,
  the key of the local path of the key of \<open>F\<close> is the key of \<open>F\<close>, the key being what
  follows \<open>baseDir/\<close>. \<open>toKey\<close> does not strip the prefix \<open>baseDir/\<close>: it cuts as many
  bytes as the prefix has, whatever they are, while \<open>path.Join\<close> and \<open>filepath.Walk\<close>
  give cleaned paths. With \<open>baseDir = ./data\<close> the key of \<open>./data/a/b.txt\<close> is
  \<open>a/b.txt\<close>, its local path is \<open>data/a/b.txt\<close>, and the key of that comes out as
  \<open>b.txt\<close>; the key of \<open>data/c.txt\<close> comes out as \<open>txt\<close>.
\<close>

theorem toKey_unclean_baseDir:
  "toKey ''./data'' (''./data'' @ ''/'' @ ''a/b.txt'') = Inr ''a/b.txt''
   \<and> toLocalPath ''./data'' ''a/b.txt'' = ''data/a/b.txt''
   \<and> toKey ''./data'' ''data/a/b.txt'' = Inr ''b.txt''
   \<and> keyRoundTrip ''./data'' (''./data'' @ ''/'' @ ''a/b.txt'') = Inr ''b.txt''
   \<and> keyRoundTrip ''./data'' (''./data'' @ ''/'' @ ''a/b.txt'')
       \<noteq> toKey ''./data'' (''./data'' @ ''/'' @ ''a/b.txt'')
   \<and> toKey ''./data'' ''data/c.txt'' = Inr ''txt''"
  by (simp add: keyRoundTrip_def toKey_def filepath_ToSlash_def Separator_def toLocalPath_def
      path_Join_def path_Clean_def cleanStep_def Let_def)

section \<open>Properties of the download\<close>

lemma trace_emit [simp]: "trace (emit e w) = trace w @ [e]"
  by (simp add: emit_def)

lemma disk_emit [simp]: "disk (emit e w) = disk w"
  by (simp add: emit_def)

lemma startedKeys_append: "startedKeys (xs @ ys) = startedKeys xs @ startedKeys ys"
  by (induction xs rule: startedKeys.induct) simp_all

lemma succeeded_append: "succeeded (xs @ ys) = succeeded xs + succeeded ys"
  by (induction xs rule: succeeded.induct) simp_all

lemma failed_append: "failed (xs @ ys) = failed xs @ failed ys"
  by (induction xs rule: failed.induct) simp_all

lemma mkdirFailed_append: "mkdirFailed (xs @ ys) = mkdirFailed xs + mkdirFailed ys"
  by (induction xs rule: mkdirFailed.induct) simp_all

lemma createdFiles_append: "createdFiles (xs @ ys) = createdFiles xs @ createdFiles ys"
  by (induction xs rule: createdFiles.induct) simp_all

lemma saveObject_events:
  "\<exists>evs. trace (saveObject env sess bucket baseDir key w) = trace w @ evs
       \<and> startedKeys evs = []
       \<and> succeeded evs + length (failed evs) = 1
       \<and> mkdirFailed evs = 0
       \<and> createdFiles evs = [path_Join [baseDir, key]]"
  by (cases "os_Create env w (path_Join [baseDir, key])";
      cases "snd (Download sess
         ((emit (CreateCall (path_Join [baseDir, key]) None) w)
            \<lparr>disk := (disk (emit (CreateCall (path_Join [baseDir, key]) None) w))
                       (path_Join [baseDir, key] \<mapsto> [])\<rparr>) bucket key)")
     (simp_all add: saveObject_def Let_def)

lemma mkDirIfNeeded_events:
  "\<exists>evs. trace (snd (mkDirIfNeeded env baseDir key w)) = trace w @ evs
       \<and> startedKeys evs = [] \<and> succeeded evs = 0 \<and> failed evs = []
       \<and> createdFiles evs = []
       \<and> mkdirFailed evs = (if fst (mkDirIfNeeded env baseDir key w) = None then 0 else 1)"
  by (cases "os_MkdirAll env w
        (path_Join [baseDir, take (nat (strings_LastIndex key ''/'')) key])")
     (simp_all add: mkDirIfNeeded_def Let_def)

text \<open>What one key of the listing adds to the trace.\<close>

lemma downloadStep_events:
  "\<exists>evs. trace (downloadStep env sess baseDir bucket pat key w) = trace w @ evs
       \<and> startedKeys evs
           = (if keptKey env pat key \<and> fst (mkDirIfNeeded env baseDir key w) = None
              then [key] else [])
       \<and> mkdirFailed evs
           = (if keptKey env pat key \<and> fst (mkDirIfNeeded env baseDir key w) \<noteq> None
              then 1 else 0)
       \<and> succeeded evs + length (failed evs) = length (startedKeys evs)
       \<and> createdFiles evs = map (\<lambda>k. path_Join [baseDir, k]) (startedKeys evs)"
proof (cases "keptKey env pat key")
  case False
  then have "downloadStep env sess baseDir bucket pat key w = w"
    by (auto simp: downloadStep_def keptKey_def split: sum.splits)
  with False show ?thesis by simp
next
  case True
  then have m: "regexpMatch env pat key = Inr False"
    by (simp add: keptKey_def)
  obtain r w1 where mk: "mkDirIfNeeded env baseDir key w = (r, w1)"
    by (cases "mkDirIfNeeded env baseDir key w")
  obtain evs1 where e1: "trace w1 = trace w @ evs1" "startedKeys evs1 = []"
      "succeeded evs1 = 0" "failed evs1 = []" "createdFiles evs1 = []"
      "mkdirFailed evs1 = (if r = None then 0 else 1)"
    using mkDirIfNeeded_events [of env baseDir key w] mk by auto
  show ?thesis
  proof (cases r)
    case (Some e)
    then have "downloadStep env sess baseDir bucket pat key w = w1"
      using m mk by (simp add: downloadStep_def)
    with Some True mk e1 show ?thesis by simp
  next
    case None
    obtain evs2 where e2:
      "trace (saveObject env sess bucket baseDir key (emit (GoSaveObject key) w1))
         = trace (emit (GoSaveObject key) w1) @ evs2"
      "startedKeys evs2 = []" "succeeded evs2 + length (failed evs2) = 1"
      "mkdirFailed evs2 = 0" "createdFiles evs2 = [path_Join [baseDir, key]]"
      using saveObject_events by blast
    let ?evs = "evs1 @ [GoSaveObject key] @ evs2"
    have t: "trace (downloadStep env sess baseDir bucket pat key w) = trace w @ ?evs"
      using m mk None e1 e2 by (simp add: downloadStep_def)
    have s: "startedKeys ?evs = [key]"
      using e1 e2 by (simp add: startedKeys_append)
    have f: "mkdirFailed ?evs = 0"
      using e1 e2 None by (simp add: mkdirFailed_append)
    have c: "succeeded ?evs + length (failed ?evs) = 1"
      using e1 e2 by (simp add: succeeded_append failed_append)
    have cr: "createdFiles ?evs = [path_Join [baseDir, key]]"
      using e1 e2 by (simp add: createdFiles_append)
    show ?thesis
      using t s f c cr True mk None by (intro exI [of _ ?evs]) simp
  qed
qed

lemma fold_downloadStep_events:
  "\<exists>evs. trace (fold (downloadStep env sess baseDir bucket pat) keys w) = trace w @ evs
       \<and> subseq (startedKeys evs) (filter (keptKey env pat) keys)
       \<and> length (startedKeys evs) + mkdirFailed evs = length (filter (keptKey env pat) keys)
       \<and> succeeded evs + length (failed evs) = length (startedKeys evs)
       \<and> createdFiles evs = map (\<lambda>k. path_Join [baseDir, k]) (startedKeys evs)
       \<and> ((\<forall>k \<in> set keys. keptKey env pat k \<longrightarrow> dirMade env baseDir k)
            \<longrightarrow> startedKeys evs = filter (keptKey env pat) keys)"
proof (induction keys arbitrary: w)
  case Nil
  show ?case by simp
next
  case (Cons key keys)
  let ?w1 = "downloadStep env sess baseDir bucket pat key w"
  obtain evs1 where e1:
    "trace ?w1 = trace w @ evs1"
    "startedKeys evs1
       = (if keptKey env pat key \<and> fst (mkDirIfNeeded env baseDir key w) = None
          then [key] else [])"
    "mkdirFailed evs1
       = (if keptKey env pat key \<and> fst (mkDirIfNeeded env baseDir key w) \<noteq> None
          then 1 else 0)"
    "succeeded evs1 + length (failed evs1) = length (startedKeys evs1)"
    "createdFiles evs1 = map (\<lambda>k. path_Join [baseDir, k]) (startedKeys evs1)"
    using downloadStep_events by blast
  obtain evs2 where e2:
    "trace (fold (downloadStep env sess baseDir bucket pat) keys ?w1) = trace ?w1 @ evs2"
    "subseq (startedKeys evs2) (filter (keptKey env pat) keys)"
    "length (startedKeys evs2) + mkdirFailed evs2 = length (filter (keptKey env pat) keys)"
    "succeeded evs2 + length (failed evs2) = length (startedKeys evs2)"
    "createdFiles evs2 = map (\<lambda>k. path_Join [baseDir, k]) (startedKeys evs2)"
    "(\<forall>k \<in> set keys. keptKey env pat k \<longrightarrow> dirMade env baseDir k)
       \<longrightarrow> startedKeys evs2 = filter (keptKey env pat) keys"
    using Cons.IH [of ?w1] by blast
  have t: "trace (fold (downloadStep env sess baseDir bucket pat) (key # keys) w)
          = trace w @ (evs1 @ evs2)"
    using e1(1) e2(1) by simp
  have s: "subseq (startedKeys (evs1 @ evs2)) (filter (keptKey env pat) (key # keys))"
    using e1(2) e2(2) by (auto simp: startedKeys_append)
  have l: "length (startedKeys (evs1 @ evs2)) + mkdirFailed (evs1 @ evs2)
          = length (filter (keptKey env pat) (key # keys))"
    using e1(2,3) e2(3) by (auto simp: startedKeys_append mkdirFailed_append)
  have c: "succeeded (evs1 @ evs2) + length (failed (evs1 @ evs2))
          = length (startedKeys (evs1 @ evs2))"
    using e1(4) e2(4) by (simp add: startedKeys_append succeeded_append failed_append)
  have cr: "createdFiles (evs1 @ evs2)
          = map (\<lambda>k. path_Join [baseDir, k]) (startedKeys (evs1 @ evs2))"
    using e1(5) e2(5) by (simp add: startedKeys_append createdFiles_append)
  have d: "(\<forall>k \<in> set (key # keys). keptKey env pat k \<longrightarrow> dirMade env baseDir k)
          \<longrightarrow> startedKeys (evs1 @ evs2) = filter (keptKey env pat) (key # keys)"
    using e1(2) e2(6) by (auto simp: startedKeys_append dirMade_def)
  show ?case
    using t s l c cr d by (intro exI [of _ "evs1 @ evs2"]) blast
qed

lemma DownloadBucket_events:
  assumes "trace w = []"
      and "session_NewSession env region = Inr sess"
      and "ListObjectsV2 sess w bucket = Inr keys"
  shows "\<exists>evs. DownloadBucket env baseDir bucket region pat w
             = (Inr None, fold (downloadStep env sess baseDir bucket pat) keys
                            (emit (ListObjectsV2Call bucket) w))
       \<and> trace (snd (DownloadBucket env baseDir bucket region pat w))
             = ListObjectsV2Call bucket # evs
       \<and> subseq (startedKeys evs) (filter (keptKey env pat) keys)
       \<and> length (startedKeys evs) + mkdirFailed evs = length (filter (keptKey env pat) keys)
       \<and> succeeded evs + length (failed evs) = length (startedKeys evs)
       \<and> createdFiles evs = map (\<lambda>k. path_Join [baseDir, k]) (startedKeys evs)
       \<and> ((\<forall>k \<in> set keys. keptKey env pat k \<longrightarrow> dirMade env baseDir k)
            \<longrightarrow> startedKeys evs = filter (keptKey env pat) keys)"
proof -
  let ?w0 = "emit (ListObjectsV2Call bucket) w"
  have eq: "DownloadBucket env baseDir bucket region pat w
          = (Inr None, fold (downloadStep env sess baseDir bucket pat) keys ?w0)"
    using assms(2,3) by (simp add: DownloadBucket_def)
  obtain evs where e:
    "trace (fold (downloadStep env sess baseDir bucket pat) keys ?w0) = trace ?w0 @ evs"
    "subseq (startedKeys evs) (filter (keptKey env pat) keys)"
    "length (startedKeys evs) + mkdirFailed evs = length (filter (keptKey env pat) keys)"
    "succeeded evs + length (failed evs) = length (startedKeys evs)"
    "createdFiles evs = map (\<lambda>k. path_Join [baseDir, k]) (startedKeys evs)"
    "(\<forall>k \<in> set keys. keptKey env pat k \<longrightarrow> dirMade env baseDir k)
       \<longrightarrow> startedKeys evs = filter (keptKey env pat) keys"
    using fold_downloadStep_events [of env sess baseDir bucket pat keys ?w0] by blast
  have tr: "trace (snd (DownloadBucket env baseDir bucket region pat w))
          = ListObjectsV2Call bucket # evs"
    using eq e(1) assms(1) by simp
  show ?thesis
    using eq tr e(2-6) by (intro exI [of _ evs]) blast
qed

lemma saveObject_kept:
  assumes "downloadedFilesKept baseDir w"
  shows "downloadedFilesKept baseDir (saveObject env sess bucket baseDir key w)"
proof (cases "os_Create env w (path_Join [baseDir, key])")
  case (Some e)
  then show ?thesis
    using assms by (simp add: saveObject_def Let_def downloadedFilesKept_def)
next
  case None
  then show ?thesis
    using assms
    by (cases "snd (Download sess
         ((emit (CreateCall (path_Join [baseDir, key]) None) w)
            \<lparr>disk := (disk (emit (CreateCall (path_Join [baseDir, key]) None) w))
                       (path_Join [baseDir, key] \<mapsto> [])\<rparr>) bucket key)")
       (auto simp: saveObject_def Let_def downloadedFilesKept_def)
qed

lemma mkDirIfNeeded_kept:
  "downloadedFilesKept baseDir w \<Longrightarrow>
   downloadedFilesKept baseDir (snd (mkDirIfNeeded env baseDir key w))"
  by (auto simp: mkDirIfNeeded_def Let_def downloadedFilesKept_def)

lemma emit_kept:
  assumes "downloadedFilesKept baseDir w" and "\<And>b k r. e \<noteq> DownloadCall b k r"
  shows "downloadedFilesKept baseDir (emit e w)"
  unfolding downloadedFilesKept_def
proof (intro allI impI)
  fix b k r
  assume "DownloadCall b k r \<in> set (trace (emit e w))"
  then have "DownloadCall b k r \<in> set (trace w)"
    using assms(2) [of b k r] by auto
  then have "disk w (path_Join [baseDir, k]) \<noteq> None"
    using assms(1) unfolding downloadedFilesKept_def by blast
  then show "disk (emit e w) (path_Join [baseDir, k]) \<noteq> None"
    by simp
qed

lemma downloadStep_kept:
  assumes "downloadedFilesKept baseDir w"
  shows "downloadedFilesKept baseDir (downloadStep env sess baseDir bucket pat key w)"
proof -
  obtain r w1 where mk: "mkDirIfNeeded env baseDir key w = (r, w1)"
    by (cases "mkDirIfNeeded env baseDir key w")
  have k1: "downloadedFilesKept baseDir w1"
    using mkDirIfNeeded_kept [OF assms, of env key] mk by simp
  have k2: "downloadedFilesKept baseDir
              (saveObject env sess bucket baseDir key (emit (GoSaveObject key) w1))"
    by (rule saveObject_kept) (simp add: emit_kept k1)
  show ?thesis
    using assms mk k1 k2
    by (simp add: downloadStep_def split: sum.splits option.splits)
qed

lemma fold_downloadStep_kept:
  "downloadedFilesKept baseDir w \<Longrightarrow>
   downloadedFilesKept baseDir (fold (downloadStep env sess baseDir bucket pat) keys w)"
  by (induction keys arbitrary: w) (simp_all add: downloadStep_kept)

lemma DownloadBucket_kept:
  assumes "downloadedFilesKept baseDir w"
  shows "downloadedFilesKept baseDir (snd (DownloadBucket env baseDir bucket region pat w))"
  using assms
  by (auto simp: DownloadBucket_def emit_kept fold_downloadStep_kept
      split: sum.splits)

lemma saveObject_failed_download:
  assumes "os_Create env w (path_Join [baseDir, key]) = None"
  shows "disk (saveObject env sess bucket baseDir key w) (path_Join [baseDir, key])
       = Some (fst (Download sess
            ((emit (CreateCall (path_Join [baseDir, key]) None) w)
               \<lparr>disk := (disk w)(path_Join [baseDir, key] \<mapsto> [])\<rparr>) bucket key))"
  using assms by (simp add: saveObject_def Let_def split: option.splits)

lemma fold_downloadStep_skip:
  "\<forall>key \<in> set keys. (\<exists>e. regexpMatch env pat key = Inl e) \<or> regexpMatch env pat key = Inr True
   \<Longrightarrow> fold (downloadStep env sess baseDir bucket pat) keys w = w"
  by (induction keys arbitrary: w) (auto simp: downloadStep_def)

lemma regexp_Match_empty: "regexp_Match [] key = Some (Inr True)"
  by (cases key) (simp_all add: regexp_Match_def syntax_Parse_def)

lemma followsRegexp_goMatch: "followsRegexp goMatch pattern"
  by (simp add: followsRegexp_def goMatch_def)

lemma tmp_matches:
  "regexp_Match (CHR 0x5C # ''.tmp$'') ''a.txt'' = Some (Inr False)"
  "regexp_Match (CHR 0x5C # ''.tmp$'') ''b.tmp'' = Some (Inr True)"
  "regexp_Match (CHR 0x5C # ''.tmp$'') ''c/d.tmp'' = Some (Inr True)"
  by (simp_all add: regexp_Match_def syntax_Parse_def isASCII_def isalnum_def)

lemma kept_tmp:
  assumes "followsRegexp (regexpMatch env) (CHR 0x5C # ''.tmp$'')"
  shows "filter (keptKey env (CHR 0x5C # ''.tmp$'')) [''a.txt'', ''b.tmp'', ''c/d.tmp''] = [''a.txt'']"
proof -
  have "regexpMatch env (CHR 0x5C # ''.tmp$'') ''a.txt'' = Inr False"
      "regexpMatch env (CHR 0x5C # ''.tmp$'') ''b.tmp'' = Inr True"
      "regexpMatch env (CHR 0x5C # ''.tmp$'') ''c/d.tmp'' = Inr True"
    using assms tmp_matches unfolding followsRegexp_def by blast+
  then show ?thesis by (simp add: keptKey_def)
qed

lemma dirMade_no_slash: "strings_LastIndex key ''/'' = - 1 \<Longrightarrow> dirMade env baseDir key"
  by (simp add: dirMade_def mkDirIfNeeded_def)

lemmas run_defs = DownloadBucket_def downloadStep_def mkDirIfNeeded_def saveObject_def
  okEnv_def okClient_def goMatch_def regexp_Match_def syntax_Parse_def path_Join_def
  path_Clean_def cleanStep_def emit_def emptyWorld_def Let_def isASCII_def isalnum_def

text \<open>
  C1, as the code has it. The claim: a key for which matching fails because the pattern is
  malformed is not excluded, so that with an invalid pattern every listed key is kept and
  downloaded. The loop reads \<open>if err != nil || matched { continue }\<close>: with the pattern
  \<open>(\<close>, which does not parse, the listed key \<open>a.txt\<close> is skipped, no goroutine is
  started for it and no file is written.
\<close>

theorem match_error_counterexample:
  "goMatch ''('' ''a.txt'' = Inl (Error ''error parsing regexp: missing closing )'')
   \<and> DownloadBucket (okEnv [''a.txt''] noTree) ''dir'' ''bucket'' ''eu'' ''('' emptyWorld
       = (Inr None, \<lparr>disk = Map.empty, trace = [ListObjectsV2Call ''bucket'']\<rparr>)
   \<and> ''a.txt'' \<notin> set (startedKeys (trace (snd
        (DownloadBucket (okEnv [''a.txt''] noTree) ''dir'' ''bucket'' ''eu'' ''('' emptyWorld))))"
  by (simp add: run_defs)

text \<open>
  C1, amended: a key for which matching fails is skipped, as an excluded key is. When
  matching fails for every listed key, as it does with a pattern that does not parse,
  \<open>DownloadBucket\<close> returns nil after the listing call alone: no directory is made, no
  goroutine started, no file written.
\<close>

theorem match_error_excludes:
  assumes "session_NewSession env region = Inr sess"
      and "ListObjectsV2 sess w bucket = Inr keys"
      and "\<forall>key \<in> set keys. \<exists>e. regexpMatch env excludePatten key = Inl e"
  shows "DownloadBucket env baseDir bucket region excludePatten w
           = (Inr None, emit (ListObjectsV2Call bucket) w)"
  using assms by (simp add: DownloadBucket_def fold_downloadStep_skip)

theorem match_error_excludes_witness:
  "session_NewSession (okEnv [''a.txt'', ''b.tmp''] noTree) ''eu'' = Inr (okClient [''a.txt'', ''b.tmp''])
   \<and> ListObjectsV2 (okClient [''a.txt'', ''b.tmp'']) emptyWorld ''bucket'' = Inr [''a.txt'', ''b.tmp'']
   \<and> regexpMatch (okEnv [''a.txt'', ''b.tmp''] noTree) ''a**'' ''a.txt''
       = Inl (Error ''error parsing regexp: invalid nested repetition operator'')
   \<and> regexpMatch (okEnv [''a.txt'', ''b.tmp''] noTree) ''a**'' ''b.tmp''
       = Inl (Error ''error parsing regexp: invalid nested repetition operator'')
   \<and> DownloadBucket (okEnv [''a.txt'', ''b.tmp''] noTree) ''dir'' ''bucket'' ''eu'' ''a**'' emptyWorld
       = (Inr None, emit (ListObjectsV2Call ''bucket'') emptyWorld)"
proof -
  have h1: "session_NewSession (okEnv [''a.txt'', ''b.tmp''] noTree) ''eu''
      = Inr (okClient [''a.txt'', ''b.tmp''])"
    by (simp add: okEnv_def)
  have h2: "ListObjectsV2 (okClient [''a.txt'', ''b.tmp'']) emptyWorld ''bucket''
      = Inr [''a.txt'', ''b.tmp'']"
    by (simp add: okClient_def)
  have m: "regexpMatch (okEnv [''a.txt'', ''b.tmp''] noTree) ''a**'' ''a.txt''
       = Inl (Error ''error parsing regexp: invalid nested repetition operator'')"
    "regexpMatch (okEnv [''a.txt'', ''b.tmp''] noTree) ''a**'' ''b.tmp''
       = Inl (Error ''error parsing regexp: invalid nested repetition operator'')"
    by (simp_all add: run_defs)
  have h3: "\<forall>key \<in> set [''a.txt'', ''b.tmp''].
      \<exists>e. regexpMatch (okEnv [''a.txt'', ''b.tmp''] noTree) ''a**'' key = Inl e"
    using m by simp
  show ?thesis
    using match_error_excludes [OF h1 h2 h3, of "''dir''"] h1 h2 m by blast
qed

text \<open>
  C9. With the empty exclusion pattern the expression matches every key, so every listed
  key is skipped: \<open>DownloadBucket\<close> returns nil after the listing call alone and
  downloads nothing. The matcher is any one that does on the empty pattern what
  \<open>regexp.Match\<close> does.
\<close>

theorem empty_pattern_excludes_all:
  assumes "followsRegexp (regexpMatch env) []"
      and "session_NewSession env region = Inr sess"
      and "ListObjectsV2 sess w bucket = Inr keys"
  shows "DownloadBucket env baseDir bucket region [] w
           = (Inr None, emit (ListObjectsV2Call bucket) w)"
proof -
  have "\<forall>key. regexpMatch env [] key = Inr True"
    using assms(1) regexp_Match_empty unfolding followsRegexp_def by blast
  then show ?thesis
    using assms(2,3) by (simp add: DownloadBucket_def fold_downloadStep_skip)
qed

theorem empty_pattern_excludes_all_witness:
  "followsRegexp (regexpMatch (okEnv [''a.txt'', ''c/d.txt''] noTree)) []
   \<and> session_NewSession (okEnv [''a.txt'', ''c/d.txt''] noTree) ''eu''
       = Inr (okClient [''a.txt'', ''c/d.txt''])
   \<and> ListObjectsV2 (okClient [''a.txt'', ''c/d.txt'']) emptyWorld ''bucket''
       = Inr [''a.txt'', ''c/d.txt'']
   \<and> DownloadBucket (okEnv [''a.txt'', ''c/d.txt''] noTree) ''dir'' ''bucket'' ''eu'' [] emptyWorld
       = (Inr None, emit (ListObjectsV2Call ''bucket'') emptyWorld)"
proof -
  have h0: "followsRegexp (regexpMatch (okEnv [''a.txt'', ''c/d.txt''] noTree)) []"
    by (simp add: okEnv_def followsRegexp_goMatch)
  have h1: "session_NewSession (okEnv [''a.txt'', ''c/d.txt''] noTree) ''eu''
       = Inr (okClient [''a.txt'', ''c/d.txt''])"
    by (simp add: okEnv_def)
  have h2: "ListObjectsV2 (okClient [''a.txt'', ''c/d.txt'']) emptyWorld ''bucket''
       = Inr [''a.txt'', ''c/d.txt'']"
    by (simp add: okClient_def)
  show ?thesis
    using empty_pattern_excludes_all [OF h0 h1 h2, of "''dir''"] h0 h1 h2 by blast
qed

text \<open>
  C7. The listing filter drops exactly the keys the pattern matches. For every listing and
  pattern, when the directory of every kept key can be made, the keys transferred (those
  for which \<open>saveObject\<close> is started, and the files \<open>os.Create\<close> is called for) are the
  kept keys of the listing, in order; a key is kept when the match returns \<open>false\<close>
  without error, which for a pattern that parses is every key the pattern does not match.
  With the pattern \<open>\.tmp$\<close> and the listing \<open>a.txt\<close>, \<open>b.tmp\<close>, \<open>c/d.tmp\<close> the keys
  transferred are exactly \<open>a.txt\<close>, for every matcher that does on this pattern what
  \<open>regexp.Match\<close> does.
\<close>

theorem filter_drops_matched_keys:
  assumes "trace w = []"
      and "session_NewSession env region = Inr sess"
      and "ListObjectsV2 sess w bucket = Inr keys"
  shows "((\<forall>k \<in> set keys. keptKey env excludePatten k \<longrightarrow> dirMade env baseDir k) \<longrightarrow>
            startedKeys (trace (snd (DownloadBucket env baseDir bucket region excludePatten w)))
              = filter (keptKey env excludePatten) keys
          \<and> createdFiles (trace (snd (DownloadBucket env baseDir bucket region excludePatten w)))
              = map (\<lambda>k. path_Join [baseDir, k]) (filter (keptKey env excludePatten) keys))
       \<and> ((\<forall>k \<in> set keys. \<exists>matched. regexpMatch env excludePatten k = Inr matched) \<longrightarrow>
            filter (keptKey env excludePatten) keys
              = filter (\<lambda>k. regexpMatch env excludePatten k \<noteq> Inr True) keys)
       \<and> (followsRegexp (regexpMatch env) (CHR 0x5C # ''.tmp$'')
            \<and> excludePatten = CHR 0x5C # ''.tmp$''
            \<and> keys = [''a.txt'', ''b.tmp'', ''c/d.tmp''] \<longrightarrow>
            startedKeys (trace (snd (DownloadBucket env baseDir bucket region excludePatten w)))
              = [''a.txt'']
          \<and> createdFiles (trace (snd (DownloadBucket env baseDir bucket region excludePatten w)))
              = [path_Join [baseDir, ''a.txt'']])"
proof -
  obtain evs where e:
    "trace (snd (DownloadBucket env baseDir bucket region excludePatten w))
       = ListObjectsV2Call bucket # evs"
    "createdFiles evs = map (\<lambda>k. path_Join [baseDir, k]) (startedKeys evs)"
    "(\<forall>k \<in> set keys. keptKey env excludePatten k \<longrightarrow> dirMade env baseDir k)
       \<longrightarrow> startedKeys evs = filter (keptKey env excludePatten) keys"
    using DownloadBucket_events [OF assms, of baseDir excludePatten] by blast
  have general: "(\<forall>k \<in> set keys. keptKey env excludePatten k \<longrightarrow> dirMade env baseDir k) \<longrightarrow>
            startedKeys (trace (snd (DownloadBucket env baseDir bucket region excludePatten w)))
              = filter (keptKey env excludePatten) keys
          \<and> createdFiles (trace (snd (DownloadBucket env baseDir bucket region excludePatten w)))
              = map (\<lambda>k. path_Join [baseDir, k]) (filter (keptKey env excludePatten) keys)"
    unfolding e(1) using e(2,3) by simp
  have valid: "(\<forall>k \<in> set keys. \<exists>matched. regexpMatch env excludePatten k = Inr matched) \<longrightarrow>
            filter (keptKey env excludePatten) keys
              = filter (\<lambda>k. regexpMatch env excludePatten k \<noteq> Inr True) keys"
  proof
    assume v: "\<forall>k \<in> set keys. \<exists>matched. regexpMatch env excludePatten k = Inr matched"
    show "filter (keptKey env excludePatten) keys
              = filter (\<lambda>k. regexpMatch env excludePatten k \<noteq> Inr True) keys"
    proof (rule filter_cong [OF refl])
      fix k
      assume "k \<in> set keys"
      then obtain matched where "regexpMatch env excludePatten k = Inr matched"
        using v by blast
      then show "keptKey env excludePatten k = (regexpMatch env excludePatten k \<noteq> Inr True)"
        by (cases matched) (simp_all add: keptKey_def)
    qed
  qed
  have inst: "followsRegexp (regexpMatch env) (CHR 0x5C # ''.tmp$'')
            \<and> excludePatten = CHR 0x5C # ''.tmp$''
            \<and> keys = [''a.txt'', ''b.tmp'', ''c/d.tmp''] \<longrightarrow>
            startedKeys (trace (snd (DownloadBucket env baseDir bucket region excludePatten w)))
              = [''a.txt'']
          \<and> createdFiles (trace (snd (DownloadBucket env baseDir bucket region excludePatten w)))
              = [path_Join [baseDir, ''a.txt'']]"
  proof
    assume h: "followsRegexp (regexpMatch env) (CHR 0x5C # ''.tmp$'')
            \<and> excludePatten = CHR 0x5C # ''.tmp$''
            \<and> keys = [''a.txt'', ''b.tmp'', ''c/d.tmp'']"
    then have k: "filter (keptKey env excludePatten) keys = [''a.txt'']"
      using kept_tmp by blast
    have only: "k = ''a.txt''" if "k \<in> set keys" and "keptKey env excludePatten k" for k
    proof -
      have "k \<in> set (filter (keptKey env excludePatten) keys)"
        using that by simp
      then show ?thesis
        unfolding k by simp
    qed
    have "dirMade env baseDir ''a.txt''"
      by (rule dirMade_no_slash) simp
    then have "\<forall>k \<in> set keys. keptKey env excludePatten k \<longrightarrow> dirMade env baseDir k"
      using only by blast
    then show "startedKeys (trace (snd (DownloadBucket env baseDir bucket region excludePatten w)))
              = [''a.txt'']
          \<and> createdFiles (trace (snd (DownloadBucket env baseDir bucket region excludePatten w)))
              = [path_Join [baseDir, ''a.txt'']]"
      using general k by simp
  qed
  show ?thesis
    using general valid inst by blast
qed

theorem filter_drops_matched_keys_witness:
  "trace emptyWorld = []
   \<and> session_NewSession (okEnv [''b.tmp'', ''c/d.txt'', ''a.txt''] noTree) ''eu''
       = Inr (okClient [''b.tmp'', ''c/d.txt'', ''a.txt''])
   \<and> ListObjectsV2 (okClient [''b.tmp'', ''c/d.txt'', ''a.txt'']) emptyWorld ''bucket''
       = Inr [''b.tmp'', ''c/d.txt'', ''a.txt'']
   \<and> regexpMatch (okEnv [''b.tmp'', ''c/d.txt'', ''a.txt''] noTree) (CHR 0x5C # ''.tmp$'') ''b.tmp''
       = Inr True
   \<and> regexpMatch (okEnv [''b.tmp'', ''c/d.txt'', ''a.txt''] noTree) (CHR 0x5C # ''.tmp$'') ''c/d.txt''
       = Inr False
   \<and> regexpMatch (okEnv [''b.tmp'', ''c/d.txt'', ''a.txt''] noTree) (CHR 0x5C # ''.tmp$'') ''a.txt''
       = Inr False
   \<and> dirMade (okEnv [''b.tmp'', ''c/d.txt'', ''a.txt''] noTree) ''dir'' ''c/d.txt''
   \<and> dirMade (okEnv [''b.tmp'', ''c/d.txt'', ''a.txt''] noTree) ''dir'' ''a.txt''
   \<and> startedKeys (trace (snd (DownloadBucket (okEnv [''b.tmp'', ''c/d.txt'', ''a.txt''] noTree)
        ''dir'' ''bucket'' ''eu'' (CHR 0x5C # ''.tmp$'') emptyWorld))) = [''c/d.txt'', ''a.txt'']
   \<and> createdFiles (trace (snd (DownloadBucket (okEnv [''b.tmp'', ''c/d.txt'', ''a.txt''] noTree)
        ''dir'' ''bucket'' ''eu'' (CHR 0x5C # ''.tmp$'') emptyWorld)))
       = [''dir/c/d.txt'', ''dir/a.txt'']
   \<and> followsRegexp (regexpMatch (okEnv [''a.txt'', ''b.tmp'', ''c/d.tmp''] noTree))
        (CHR 0x5C # ''.tmp$'')
   \<and> startedKeys (trace (snd (DownloadBucket (okEnv [''a.txt'', ''b.tmp'', ''c/d.tmp''] noTree)
        ''dir'' ''bucket'' ''eu'' (CHR 0x5C # ''.tmp$'') emptyWorld))) = [''a.txt'']"
proof -
  let ?env = "okEnv [''b.tmp'', ''c/d.txt'', ''a.txt''] noTree"
  let ?pat = "CHR 0x5C # ''.tmp$''"
  have h1: "trace emptyWorld = []"
    by (simp add: emptyWorld_def)
  have h2: "session_NewSession ?env ''eu'' = Inr (okClient [''b.tmp'', ''c/d.txt'', ''a.txt''])"
    by (simp add: okEnv_def)
  have h3: "ListObjectsV2 (okClient [''b.tmp'', ''c/d.txt'', ''a.txt'']) emptyWorld ''bucket''
       = Inr [''b.tmp'', ''c/d.txt'', ''a.txt'']"
    by (simp add: okClient_def)
  have m: "regexpMatch ?env ?pat ''b.tmp'' = Inr True"
      "regexpMatch ?env ?pat ''c/d.txt'' = Inr False"
      "regexpMatch ?env ?pat ''a.txt'' = Inr False"
    by (simp_all add: okEnv_def goMatch_def regexp_Match_def syntax_Parse_def isASCII_def
        isalnum_def)
  have d: "dirMade ?env ''dir'' ''c/d.txt''" "dirMade ?env ''dir'' ''a.txt''"
    by (simp_all add: dirMade_def mkDirIfNeeded_def okEnv_def Let_def)
  have k: "filter (keptKey ?env ?pat) [''b.tmp'', ''c/d.txt'', ''a.txt''] = [''c/d.txt'', ''a.txt'']"
    using m by (simp add: keptKey_def)
  have ball: "\<forall>k \<in> set [''b.tmp'', ''c/d.txt'', ''a.txt''].
      keptKey ?env ?pat k \<longrightarrow> dirMade ?env ''dir'' k"
    using m d by (simp add: keptKey_def)
  have j: "map (\<lambda>k. path_Join [''dir'', k]) [''c/d.txt'', ''a.txt''] = [''dir/c/d.txt'', ''dir/a.txt'']"
    by (simp add: path_Join_def path_Clean_def cleanStep_def Let_def)
  note t1 = filter_drops_matched_keys [OF h1 h2 h3, of ?pat "''dir''"]
  have r1: "startedKeys (trace (snd (DownloadBucket ?env ''dir'' ''bucket'' ''eu'' ?pat emptyWorld)))
       = [''c/d.txt'', ''a.txt'']
     \<and> createdFiles (trace (snd (DownloadBucket ?env ''dir'' ''bucket'' ''eu'' ?pat emptyWorld)))
       = [''dir/c/d.txt'', ''dir/a.txt'']"
    using t1 ball k j by simp
  let ?env2 = "okEnv [''a.txt'', ''b.tmp'', ''c/d.tmp''] noTree"
  have g1: "session_NewSession ?env2 ''eu'' = Inr (okClient [''a.txt'', ''b.tmp'', ''c/d.tmp''])"
    by (simp add: okEnv_def)
  have g2: "ListObjectsV2 (okClient [''a.txt'', ''b.tmp'', ''c/d.tmp'']) emptyWorld ''bucket''
       = Inr [''a.txt'', ''b.tmp'', ''c/d.tmp'']"
    by (simp add: okClient_def)
  have g0: "followsRegexp (regexpMatch ?env2) ?pat"
    by (simp add: okEnv_def followsRegexp_goMatch)
  have r2: "startedKeys (trace (snd (DownloadBucket ?env2 ''dir'' ''bucket'' ''eu'' ?pat emptyWorld)))
       = [''a.txt'']"
    using filter_drops_matched_keys [OF h1 g1 g2, of ?pat "''dir''"] g0 by blast
  show ?thesis
    using h1 h2 h3 m d r1 g0 r2 by blast
qed

text \<open>
  C5, as the code has it. The claim: after the batch returns, succeeded plus the number of
  recorded failures is the number of targets. \<open>DownloadBucket\<close> returns nil or the
  listing error and no aggregate; a failure is recorded by a line of the log and nowhere
  else. A key that passes the filter but whose directory cannot be made is dropped by
  \<open>continue\<close> without a line: for the listing \<open>d/x\<close> and a failing \<open>os.MkdirAll\<close>
  there is one target, no success and no recorded failure.
\<close>

theorem accounting_counterexample:
  "goMatch ''zzz'' ''d/x'' = Inr False
   \<and> fst (DownloadBucket (mkdirFailsEnv [''d/x'']) ''dir'' ''bucket'' ''eu'' ''zzz'' emptyWorld)
       = Inr None
   \<and> trace (snd (DownloadBucket (mkdirFailsEnv [''d/x'']) ''dir'' ''bucket'' ''eu'' ''zzz''
        emptyWorld))
       = [ListObjectsV2Call ''bucket'', MkdirAllCall ''dir/d'' (Some permissionDenied)]
   \<and> succeeded (trace (snd (DownloadBucket (mkdirFailsEnv [''d/x'']) ''dir'' ''bucket'' ''eu''
        ''zzz'' emptyWorld)))
       + length (failed (trace (snd (DownloadBucket (mkdirFailsEnv [''d/x'']) ''dir'' ''bucket''
           ''eu'' ''zzz'' emptyWorld))))
       \<noteq> length [''d/x'']"
  by (simp add: run_defs mkdirFailsEnv_def permissionDenied_def)

text \<open>
  C5, amended: \<open>DownloadBucket\<close> returns no aggregate; read off the trace, every target
  (every listed key that the filter keeps) is accounted for exactly once, as a download
  that returned without error, as one line of the log, or as a call of \<open>os.MkdirAll\<close>
  that failed: succeeded plus logged failures plus failed \<open>MkdirAll\<close> calls is the number
  of targets. The targets for which \<open>saveObject\<close> is started are the targets less those
  whose directory could not be made, in listing order, and each started target is one
  success or one line of the log.
\<close>

theorem DownloadBucket_accounting:
  assumes "trace w = []"
      and "session_NewSession env region = Inr sess"
      and "ListObjectsV2 sess w bucket = Inr keys"
  shows "fst (DownloadBucket env baseDir bucket region excludePatten w) = Inr None
       \<and> succeeded (trace (snd (DownloadBucket env baseDir bucket region excludePatten w)))
         + length (failed (trace (snd (DownloadBucket env baseDir bucket region excludePatten w))))
         + mkdirFailed (trace (snd (DownloadBucket env baseDir bucket region excludePatten w)))
         = length (filter (keptKey env excludePatten) keys)
       \<and> subseq (startedKeys
             (trace (snd (DownloadBucket env baseDir bucket region excludePatten w))))
           (filter (keptKey env excludePatten) keys)
       \<and> length (startedKeys
             (trace (snd (DownloadBucket env baseDir bucket region excludePatten w))))
         + mkdirFailed (trace (snd (DownloadBucket env baseDir bucket region excludePatten w)))
         = length (filter (keptKey env excludePatten) keys)
       \<and> succeeded (trace (snd (DownloadBucket env baseDir bucket region excludePatten w)))
         + length (failed (trace (snd (DownloadBucket env baseDir bucket region excludePatten w))))
         = length (startedKeys
             (trace (snd (DownloadBucket env baseDir bucket region excludePatten w))))"
proof -
  obtain evs where e:
    "DownloadBucket env baseDir bucket region excludePatten w
       = (Inr None, fold (downloadStep env sess baseDir bucket excludePatten) keys
                      (emit (ListObjectsV2Call bucket) w))"
    "trace (snd (DownloadBucket env baseDir bucket region excludePatten w))
       = ListObjectsV2Call bucket # evs"
    "subseq (startedKeys evs) (filter (keptKey env excludePatten) keys)"
    "length (startedKeys evs) + mkdirFailed evs = length (filter (keptKey env excludePatten) keys)"
    "succeeded evs + length (failed evs) = length (startedKeys evs)"
    using DownloadBucket_events [OF assms, of baseDir excludePatten] by blast
  show ?thesis
    unfolding e(2) using e(1,3,4,5) by simp
qed

theorem DownloadBucket_accounting_witness:
  "trace emptyWorld = []
   \<and> session_NewSession (mkdirFailsEnv [''a.txt'', ''b.tmp'', ''c/d.txt'']) ''eu''
       = Inr (okClient [''a.txt'', ''b.tmp'', ''c/d.txt''])
   \<and> ListObjectsV2 (okClient [''a.txt'', ''b.tmp'', ''c/d.txt'']) emptyWorld ''bucket''
       = Inr [''a.txt'', ''b.tmp'', ''c/d.txt'']
   \<and> filter (keptKey (mkdirFailsEnv [''a.txt'', ''b.tmp'', ''c/d.txt'']) (CHR 0x5C # ''.tmp$''))
        [''a.txt'', ''b.tmp'', ''c/d.txt''] = [''a.txt'', ''c/d.txt'']
   \<and> succeeded (trace (snd (DownloadBucket (mkdirFailsEnv [''a.txt'', ''b.tmp'', ''c/d.txt''])
         ''dir'' ''bucket'' ''eu'' (CHR 0x5C # ''.tmp$'') emptyWorld))) = 1
   \<and> failed (trace (snd (DownloadBucket (mkdirFailsEnv [''a.txt'', ''b.tmp'', ''c/d.txt''])
         ''dir'' ''bucket'' ''eu'' (CHR 0x5C # ''.tmp$'') emptyWorld))) = []
   \<and> mkdirFailed (trace (snd (DownloadBucket (mkdirFailsEnv [''a.txt'', ''b.tmp'', ''c/d.txt''])
         ''dir'' ''bucket'' ''eu'' (CHR 0x5C # ''.tmp$'') emptyWorld))) = 1
   \<and> startedKeys (trace (snd (DownloadBucket (mkdirFailsEnv [''a.txt'', ''b.tmp'', ''c/d.txt''])
         ''dir'' ''bucket'' ''eu'' (CHR 0x5C # ''.tmp$'') emptyWorld))) = [''a.txt'']
   \<and> succeeded (trace (snd (DownloadBucket (mkdirFailsEnv [''a.txt'', ''b.tmp'', ''c/d.txt''])
         ''dir'' ''bucket'' ''eu'' (CHR 0x5C # ''.tmp$'') emptyWorld)))
       + length (failed (trace (snd (DownloadBucket
           (mkdirFailsEnv [''a.txt'', ''b.tmp'', ''c/d.txt''])
           ''dir'' ''bucket'' ''eu'' (CHR 0x5C # ''.tmp$'') emptyWorld))))
       + mkdirFailed (trace (snd (DownloadBucket
           (mkdirFailsEnv [''a.txt'', ''b.tmp'', ''c/d.txt''])
           ''dir'' ''bucket'' ''eu'' (CHR 0x5C # ''.tmp$'') emptyWorld)))
       = length (filter (keptKey (mkdirFailsEnv [''a.txt'', ''b.tmp'', ''c/d.txt''])
           (CHR 0x5C # ''.tmp$'')) [''a.txt'', ''b.tmp'', ''c/d.txt''])"
proof -
  let ?env = "mkdirFailsEnv [''a.txt'', ''b.tmp'', ''c/d.txt'']"
  let ?pat = "CHR 0x5C # ''.tmp$''"
  let ?tr = "trace (snd (DownloadBucket ?env ''dir'' ''bucket'' ''eu'' ?pat emptyWorld))"
  have h1: "trace emptyWorld = []"
    by (simp add: emptyWorld_def)
  have h2: "session_NewSession ?env ''eu'' = Inr (okClient [''a.txt'', ''b.tmp'', ''c/d.txt''])"
    by (simp add: mkdirFailsEnv_def okEnv_def)
  have h3: "ListObjectsV2 (okClient [''a.txt'', ''b.tmp'', ''c/d.txt'']) emptyWorld ''bucket''
       = Inr [''a.txt'', ''b.tmp'', ''c/d.txt'']"
    by (simp add: okClient_def)
  have k: "filter (keptKey ?env ?pat) [''a.txt'', ''b.tmp'', ''c/d.txt''] = [''a.txt'', ''c/d.txt'']"
    by (simp add: keptKey_def mkdirFailsEnv_def okEnv_def goMatch_def regexp_Match_def
        syntax_Parse_def isASCII_def isalnum_def)
  have v: "succeeded ?tr = 1" "failed ?tr = []" "mkdirFailed ?tr = 1" "startedKeys ?tr = [''a.txt'']"
    by (simp_all add: run_defs mkdirFailsEnv_def permissionDenied_def)
  have "succeeded ?tr + length (failed ?tr) + mkdirFailed ?tr
      = length (filter (keptKey ?env ?pat) [''a.txt'', ''b.tmp'', ''c/d.txt''])"
    using DownloadBucket_accounting [OF h1 h2 h3, of "''dir''" ?pat] by blast
  then show ?thesis
    using h1 h2 h3 k v by blast
qed

text \<open>
  C10. A failed download is not rolled back: for every key whose download was attempted
  (so \<open>os.Create\<close> had succeeded) and returned an error, the local file
  \<open>path.Join(baseDir, key)\<close> is on the disk when \<open>DownloadBucket\<close> returns.
\<close>

theorem failed_download_leaves_file:
  assumes "trace w = []"
  shows "\<forall>key e. DownloadCall bucket key (Some e)
                    \<in> set (trace (snd (DownloadBucket env baseDir bucket region pat w)))
           \<longrightarrow> disk (snd (DownloadBucket env baseDir bucket region pat w))
                 (path_Join [baseDir, key]) \<noteq> None"
proof -
  have "downloadedFilesKept baseDir w"
    using assms by (simp add: downloadedFilesKept_def)
  then have "downloadedFilesKept baseDir (snd (DownloadBucket env baseDir bucket region pat w))"
    by (rule DownloadBucket_kept)
  then show ?thesis
    unfolding downloadedFilesKept_def by blast
qed

theorem failed_download_leaves_file_witness:
  "trace emptyWorld = []
   \<and> DownloadCall ''bucket'' ''a.txt'' (Some (Error ''connection reset''))
       \<in> set (trace (snd (DownloadBucket (downloadFailsEnv [''a.txt'']) ''dir'' ''bucket'' ''eu''
                ''zzz'' emptyWorld)))
   \<and> disk (snd (DownloadBucket (downloadFailsEnv [''a.txt'']) ''dir'' ''bucket'' ''eu'' ''zzz''
         emptyWorld)) (path_Join [''dir'', ''a.txt'']) \<noteq> None
   \<and> disk (snd (DownloadBucket (downloadFailsEnv [''a.txt'']) ''dir'' ''bucket'' ''eu'' ''zzz''
         emptyWorld)) ''dir/a.txt'' = Some ''con''"
proof -
  have h1: "trace emptyWorld = []"
    by (simp add: emptyWorld_def)
  have ev: "DownloadCall ''bucket'' ''a.txt'' (Some (Error ''connection reset''))
       \<in> set (trace (snd (DownloadBucket (downloadFailsEnv [''a.txt'']) ''dir'' ''bucket'' ''eu''
                ''zzz'' emptyWorld)))"
    by (simp add: run_defs downloadFailsEnv_def brokenClient_def)
  have c: "disk (snd (DownloadBucket (downloadFailsEnv [''a.txt'']) ''dir'' ''bucket'' ''eu'' ''zzz''
         emptyWorld)) ''dir/a.txt'' = Some ''con''"
    by (simp add: run_defs downloadFailsEnv_def brokenClient_def)
  from failed_download_leaves_file [OF h1, of "''bucket''" "downloadFailsEnv [''a.txt'']"
      "''dir''" "''eu''" "''zzz''"] ev
  have "disk (snd (DownloadBucket (downloadFailsEnv [''a.txt'']) ''dir'' ''bucket'' ''eu'' ''zzz''
         emptyWorld)) (path_Join [''dir'', ''a.txt'']) \<noteq> None"
    by blast
  then show ?thesis using h1 ev c by blast
qed

section \<open>Properties of the upload\<close>

lemma uploadLoop_done:
  "filePaths iter = [] \<Longrightarrow>
   uploadLoop env sess iter w errs
     = (Inr (errs, iter\<lparr>iterNext := (iterNext iter)\<lparr>next_f := None\<rparr>\<rparr>), w)"
  by (subst uploadLoop.simps) (simp add: Next_def)

lemma getFiles_unreadable:
  "fileTree env root = UnreadableDirectory e \<Longrightarrow> getFiles env root w = (Inr [], w)"
  by (simp add: getFiles_def filepath_Walk_def getFilesWalkFn_def)

lemma getFiles_missing:
  "fileTree env root = NoInfo e \<Longrightarrow> getFiles env root w = (Inl NilDereference, w)"
  by (simp add: getFiles_def filepath_Walk_def getFilesWalkFn_def)

lemma UploadBucket_missing_root:
  "fileTree env baseDir = NoInfo e \<Longrightarrow> session_NewSession env region = Inr sess \<Longrightarrow>
   UploadBucket env baseDir bucket region w = (Inl NilDereference, w)"
  by (simp add: UploadBucket_def createIterator_def getFiles_missing)

lemma Next_open_fails:
  assumes "filePaths iter = p # rest" and "os_Open env w p = Some e"
      and "toKey (iterBaseDir iter) p = Inr key"
  shows "Next env iter w
           = (Inr (False, afterFailedOpen iter p key e), emit (OpenCall p (Some e)) w)"
  using assms by (simp add: Next_def Let_def afterFailedOpen_def)

lemma Next_open_ok:
  assumes "filePaths iter = p # rest" and "os_Open env w p = None"
      and "toKey (iterBaseDir iter) p = Inr key"
  shows "Next env iter w = (Inr (True, afterOpen iter p key), emit (OpenCall p None) w)"
  using assms by (simp add: Next_def Let_def afterOpen_def)

lemma uploadOne_prefix: "prefix errs (fst (uploadOne env sess iter w errs))"
  by (simp add: uploadOne_def Let_def split: option.splits)

lemma Next_bucket:
  "Next env iter w = (Inr (hasNext, iter1), w1) \<Longrightarrow> iterBucket iter1 = iterBucket iter"
  by (auto simp: Next_def Let_def split: if_splits sum.splits)

lemma uploadLoop_prefix_bucket:
  "uploadLoop env sess iter w errs = (Inr (out, iterF), w') \<Longrightarrow>
   prefix errs out \<and> iterBucket iterF = iterBucket iter"
proof (induction env sess iter w errs rule: uploadLoop.induct)
  case (1 env sess iter w errs)
  obtain r w1 where n: "Next env iter w = (r, w1)"
    by (cases "Next env iter w")
  show ?case
  proof (cases r)
    case (Inl p)
    with n "1.prems" show ?thesis
      by (subst (asm) uploadLoop.simps) simp
  next
    case (Inr x)
    obtain hasNext iter1 where x: "x = (hasNext, iter1)"
      by (cases x)
    have bk: "iterBucket iter1 = iterBucket iter"
      using n Inr x Next_bucket by blast
    show ?thesis
    proof (cases hasNext)
      case False
      with n Inr x "1.prems" bk show ?thesis
        by (subst (asm) uploadLoop.simps) auto
    next
      case True
      have run: "uploadLoop env sess iter1 (snd (uploadOne env sess iter1 w1 errs))
                   (fst (uploadOne env sess iter1 w1 errs)) = (Inr (out, iterF), w')"
        using n Inr x True "1.prems" by (subst (asm) uploadLoop.simps) simp
      have "prefix (fst (uploadOne env sess iter1 w1 errs)) out
            \<and> iterBucket iterF = iterBucket iter1"
        using "1.IH" [OF n [symmetric] Inr x [symmetric] _ run] True by simp
      then show ?thesis
        using uploadOne_prefix prefix_order.trans bk by (metis (no_types))
    qed
  qed
qed

lemmas upload_defs = UploadBucket_def createIterator_def getFiles_def filepath_Walk_def
  getFilesWalkFn_def UploadWithIterator_def uploadLoop_done okEnv_def okClient_def
  emptyWorld_def path_Join_def path_Clean_def cleanStep_def Let_def emit_def
  Next_def toKey_def filepath_ToSlash_def Separator_def uploadOne_def closeFile_def
  UploadObject_def deref_def

lemma getFiles_two:
  "getFiles (okEnv [] twoFilesTree) ''data'' emptyWorld = (Inr [''data/a.txt'', ''data/b.txt''], emptyWorld)"
  by (simp add: upload_defs twoFilesTree_def)

lemma UploadBucket_upload_fails_run:
  "UploadBucket uploadFailsEnv ''data'' ''bucket'' ''eu'' emptyWorld
     = (Inr (Some (BatchError ''BatchedUploadIncomplete'' ''some objects have failed to upload.''
                [(Error ''access denied'', IterBucketPtr, IterNextKeyPtr)])),
        \<lparr>disk = Map.empty,
         trace = [OpenCall ''data/a.txt'' None,
                  UploadCall ''bucket'' ''a.txt'' (Some (Error ''access denied'')),
                  CloseCall (Some ''data/a.txt'') None,
                  OpenCall ''data/b.txt'' None,
                  UploadCall ''bucket'' ''b.txt'' None,
                  CloseCall (Some ''data/b.txt'') None]\<rparr>)"
  apply (simp add: upload_defs uploadFailsEnv_def uploadFailsClient_def twoFilesTree_def)
  apply (subst uploadLoop.simps)
  apply (simp add: upload_defs uploadFailsEnv_def uploadFailsClient_def twoFilesTree_def)
  apply (subst uploadLoop.simps)
  apply (simp add: upload_defs uploadFailsEnv_def uploadFailsClient_def twoFilesTree_def)
  done

text \<open>
  The record of a failed upload holds the address of the iterator's key field, which the
  next \<open>Next\<close> overwrites: with the files \<open>data/a.txt\<close> and \<open>data/b.txt\<close> and a failing
  upload of the first, the one record of the batch reads as key \<open>b.txt\<close> when the batch
  has returned.
\<close>

lemma uploadLoop_upload_fails_run:
  "\<exists>iterF w'. uploadLoop uploadFailsEnv uploadFailsClient twoFilesIterator emptyWorld []
          = (Inr ([(Error ''access denied'', IterBucketPtr, IterNextKeyPtr)], iterF), w')
        \<and> readErrors iterF [(Error ''access denied'', IterBucketPtr, IterNextKeyPtr)]
          = [(Error ''access denied'', ''bucket'', ''b.txt'')]"
  apply (subst uploadLoop.simps)
  apply (simp add: upload_defs uploadFailsEnv_def uploadFailsClient_def twoFilesIterator_def)
  apply (subst uploadLoop.simps)
  apply (simp add: upload_defs uploadFailsEnv_def uploadFailsClient_def twoFilesIterator_def
      readErrors_def)
  done

text \<open>
  The upload of the directory \<open>./data\<close> with the files \<open>a/b.txt\<close> and \<open>c.txt\<close>: the
  walk gives the cleaned paths \<open>data/a/b.txt\<close> and \<open>data/c.txt\<close>, and the files are
  uploaded under the keys \<open>b.txt\<close> and \<open>txt\<close>.
\<close>

lemma UploadBucket_unclean_baseDir_run:
  "getFiles (okEnv [] nestedTree) ''./data'' emptyWorld
     = (Inr [''data/a/b.txt'', ''data/c.txt''], emptyWorld)
   \<and> UploadBucket (okEnv [] nestedTree) ''./data'' ''bucket'' ''eu'' emptyWorld
     = (Inr None,
        \<lparr>disk = Map.empty,
         trace = [OpenCall ''data/a/b.txt'' None,
                  UploadCall ''bucket'' ''b.txt'' None,
                  CloseCall (Some ''data/a/b.txt'') None,
                  OpenCall ''data/c.txt'' None,
                  UploadCall ''bucket'' ''txt'' None,
                  CloseCall (Some ''data/c.txt'') None]\<rparr>)"
  apply (simp add: upload_defs nestedTree_def)
  apply (subst uploadLoop.simps)
  apply (simp add: upload_defs nestedTree_def)
  apply (subst uploadLoop.simps)
  apply (simp add: upload_defs nestedTree_def)
  done

text \<open>
  C4, as the code has it. The claim: when the walk of the base directory fails at the root,
  the caller of the upload gets a fatal enumeration error, and never an empty file set in
  silence. \<open>getFiles\<close> has no error result and its callback returns nil whatever error
  it is given: for a base directory whose entries cannot be read, the walk reports nothing,
  the file set is empty and \<open>UploadBucket\<close> returns nil, with nothing logged and nothing
  uploaded.
\<close>

theorem enumeration_error_counterexample:
  "fileTree (okEnv [] unreadableTree) ''data'' = UnreadableDirectory permissionDenied
   \<and> UploadBucket (okEnv [] unreadableTree) ''data'' ''bucket'' ''eu'' emptyWorld
       = (Inr None, \<lparr>disk = Map.empty, trace = []\<rparr>)"
  by (simp add: UploadBucket_def createIterator_def getFiles_def filepath_Walk_def
      getFilesWalkFn_def UploadWithIterator_def uploadLoop_done okEnv_def unreadableTree_def
      emptyWorld_def)

text \<open>
  C4, amended: for every base directory that exists and whose entries cannot be read,
  \<open>getFiles\<close> returns the empty file set and no error, and \<open>UploadBucket\<close> returns nil
  with nothing opened, uploaded or logged. (An error that \<open>filepath.Walk\<close> does return
  is logged by \<open>getFiles\<close> and goes no further.)
\<close>

theorem unreadable_root_silently_empty:
  assumes "fileTree env baseDir = UnreadableDirectory e"
      and "session_NewSession env region = Inr sess"
  shows "getFiles env baseDir w = (Inr [], w)
       \<and> UploadBucket env baseDir bucket region w = (Inr None, w)"
  using assms
  by (simp add: UploadBucket_def createIterator_def getFiles_unreadable
      UploadWithIterator_def uploadLoop_done)

theorem unreadable_root_silently_empty_witness:
  "fileTree (okEnv [''k''] unreadableTree) ''/srv/data'' = UnreadableDirectory permissionDenied
   \<and> session_NewSession (okEnv [''k''] unreadableTree) ''eu'' = Inr (okClient [''k''])
   \<and> getFiles (okEnv [''k''] unreadableTree) ''/srv/data'' emptyWorld = (Inr [], emptyWorld)
   \<and> UploadBucket (okEnv [''k''] unreadableTree) ''/srv/data'' ''bucket'' ''eu'' emptyWorld
       = (Inr None, emptyWorld)"
proof -
  have h1: "fileTree (okEnv [''k''] unreadableTree) ''/srv/data''
      = UnreadableDirectory permissionDenied"
    by (simp add: okEnv_def unreadableTree_def)
  have h2: "session_NewSession (okEnv [''k''] unreadableTree) ''eu'' = Inr (okClient [''k''])"
    by (simp add: okEnv_def)
  show ?thesis
    using unreadable_root_silently_empty [OF h1 h2, of emptyWorld "''bucket''"] h1 h2 by blast
qed

text \<open>
  C2, as the code has it. The claim: a failure to open one local file fails only that
  target, is recorded with the target's identity, and the batch goes on with the remaining
  targets. \<open>Next\<close> returns \<open>true && iter.Err() == nil\<close>, so a failed \<open>os.Open\<close>
  ends the loop of the upload manager: with the files \<open>data/a.txt\<close> and \<open>data/b.txt\<close>
  and a failing open of the first, \<open>data/b.txt\<close> is never opened or uploaded, and
  \<open>UploadBucket\<close> returns nil.
\<close>

theorem open_failure_counterexample:
  "getFiles openFailsEnv ''data'' emptyWorld = (Inr [''data/a.txt'', ''data/b.txt''], emptyWorld)
   \<and> os_Open openFailsEnv emptyWorld ''data/a.txt'' = Some permissionDenied
   \<and> UploadBucket openFailsEnv ''data'' ''bucket'' ''eu'' emptyWorld
       = (Inr None, \<lparr>disk = Map.empty, trace = [OpenCall ''data/a.txt'' (Some permissionDenied)]\<rparr>)"
  apply (simp add: upload_defs openFailsEnv_def twoFilesTree_def permissionDenied_def)
  apply (subst uploadLoop.simps)
  apply (simp add: upload_defs openFailsEnv_def twoFilesTree_def permissionDenied_def)
  done

text \<open>
  C2, amended: a failure to open the next local file ends the batch, with the errors
  collected so far and no call after the failed open. An error of the upload of one target
  does not end the batch: a record with that error and the bucket is added to the errors,
  the batch goes on with the remaining targets, and the errors the batch returns go on
  from that record. (The key of the record is the address of the iterator's key field;
  what it reads as after the batch is left out here.)
\<close>

theorem upload_failures:
  assumes "filePaths iter = p # rest" and "toKey (iterBaseDir iter) p = Inr key"
  shows "(os_Open env w p = Some e \<longrightarrow>
            uploadLoop env sess iter w errs
              = (Inr (errs, afterFailedOpen iter p key e), emit (OpenCall p (Some e)) w))
       \<and> (os_Open env w p = None
            \<and> Upload sess (emit (OpenCall p None) w) (iterBucket iter) key (Some p) = Some e \<longrightarrow>
            uploadLoop env sess iter w errs
              = uploadLoop env sess (afterOpen iter p key)
                  (snd (uploadOne env sess (afterOpen iter p key) (emit (OpenCall p None) w) errs))
                  (fst (uploadOne env sess (afterOpen iter p key) (emit (OpenCall p None) w) errs))
            \<and> filePaths (afterOpen iter p key) = rest
            \<and> (\<forall>out iterF w'. uploadLoop env sess iter w errs = (Inr (out, iterF), w')
                  \<longrightarrow> take (Suc (length errs)) out = errs @ [(e, IterBucketPtr, IterNextKeyPtr)]
                      \<and> deref iterF IterBucketPtr = iterBucket iter))"
proof (intro conjI impI)
  assume o: "os_Open env w p = Some e"
  have "Next env iter w
          = (Inr (False, afterFailedOpen iter p key e), emit (OpenCall p (Some e)) w)"
    using Next_open_fails [OF assms(1) o assms(2)] .
  then show "uploadLoop env sess iter w errs
      = (Inr (errs, afterFailedOpen iter p key e), emit (OpenCall p (Some e)) w)"
    by (subst uploadLoop.simps) simp
next
  assume a: "os_Open env w p = None
     \<and> Upload sess (emit (OpenCall p None) w) (iterBucket iter) key (Some p) = Some e"
  let ?one = "uploadOne env sess (afterOpen iter p key) (emit (OpenCall p None) w) errs"
  have n: "Next env iter w = (Inr (True, afterOpen iter p key), emit (OpenCall p None) w)"
    using Next_open_ok [OF assms(1) _ assms(2)] a by blast
  have step: "uploadLoop env sess iter w errs
      = uploadLoop env sess (afterOpen iter p key) (snd ?one) (fst ?one)"
    by (subst uploadLoop.simps) (simp add: n)
  have rec: "take (Suc (length errs)) (fst ?one) = errs @ [(e, IterBucketPtr, IterNextKeyPtr)]"
    using a
    by (simp add: uploadOne_def UploadObject_def deref_def afterOpen_def Let_def
        split: option.splits)
  show "uploadLoop env sess iter w errs
      = uploadLoop env sess (afterOpen iter p key) (snd ?one) (fst ?one)"
    by (rule step)
  show "filePaths (afterOpen iter p key) = rest"
    using assms(1) by (simp add: afterOpen_def)
  show "\<forall>out iterF w'. uploadLoop env sess iter w errs = (Inr (out, iterF), w')
          \<longrightarrow> take (Suc (length errs)) out = errs @ [(e, IterBucketPtr, IterNextKeyPtr)]
              \<and> deref iterF IterBucketPtr = iterBucket iter"
  proof (intro allI impI)
    fix out iterF w'
    assume run: "uploadLoop env sess iter w errs = (Inr (out, iterF), w')"
    then have "uploadLoop env sess (afterOpen iter p key) (snd ?one) (fst ?one)
        = (Inr (out, iterF), w')"
      using step by simp
    then have pb: "prefix (fst ?one) out
        \<and> iterBucket iterF = iterBucket (afterOpen iter p key)"
      by (rule uploadLoop_prefix_bucket)
    then obtain zs where out: "out = fst ?one @ zs"
      by (auto simp: prefix_def)
    have len: "Suc (length errs) \<le> length (fst ?one)"
      using rec by (metis length_append_singleton length_take min.cobounded1 min_def)
    have "take (Suc (length errs)) out = take (Suc (length errs)) (fst ?one)"
      using out len by simp
    moreover have "deref iterF IterBucketPtr = iterBucket iter"
      using pb by (simp add: deref_def afterOpen_def)
    ultimately show "take (Suc (length errs)) out = errs @ [(e, IterBucketPtr, IterNextKeyPtr)]
        \<and> deref iterF IterBucketPtr = iterBucket iter"
      using rec by simp
  qed
qed

theorem upload_failures_witness:
  "filePaths twoFilesIterator = ''data/a.txt'' # [''data/b.txt'']
   \<and> toKey (iterBaseDir twoFilesIterator) ''data/a.txt'' = Inr ''a.txt''
   \<and> os_Open openFailsEnv emptyWorld ''data/a.txt'' = Some permissionDenied
   \<and> uploadLoop openFailsEnv (okClient []) twoFilesIterator emptyWorld []
       = (Inr ([], afterFailedOpen twoFilesIterator ''data/a.txt'' ''a.txt'' permissionDenied),
          emit (OpenCall ''data/a.txt'' (Some permissionDenied)) emptyWorld)
   \<and> os_Open uploadFailsEnv emptyWorld ''data/a.txt'' = None
   \<and> Upload uploadFailsClient (emit (OpenCall ''data/a.txt'' None) emptyWorld)
        (iterBucket twoFilesIterator) ''a.txt'' (Some ''data/a.txt'') = Some (Error ''access denied'')
   \<and> filePaths (afterOpen twoFilesIterator ''data/a.txt'' ''a.txt'') = [''data/b.txt'']
   \<and> (\<exists>iterF w'. uploadLoop uploadFailsEnv uploadFailsClient twoFilesIterator emptyWorld []
          = (Inr ([(Error ''access denied'', IterBucketPtr, IterNextKeyPtr)], iterF), w')
        \<and> take (Suc (length ([] :: uploadError list)))
            [(Error ''access denied'', IterBucketPtr, IterNextKeyPtr)]
          = [] @ [(Error ''access denied'', IterBucketPtr, IterNextKeyPtr)]
        \<and> deref iterF IterBucketPtr = iterBucket twoFilesIterator)"
proof -
  have h1: "filePaths twoFilesIterator = ''data/a.txt'' # [''data/b.txt'']"
    by (simp add: twoFilesIterator_def)
  have h2: "toKey (iterBaseDir twoFilesIterator) ''data/a.txt'' = Inr ''a.txt''"
    by (simp add: twoFilesIterator_def toKey_def filepath_ToSlash_def Separator_def)
  have o1: "os_Open openFailsEnv emptyWorld ''data/a.txt'' = Some permissionDenied"
    by (simp add: openFailsEnv_def okEnv_def)
  have o2: "os_Open uploadFailsEnv emptyWorld ''data/a.txt'' = None"
    by (simp add: uploadFailsEnv_def okEnv_def)
  have u2: "Upload uploadFailsClient (emit (OpenCall ''data/a.txt'' None) emptyWorld)
        (iterBucket twoFilesIterator) ''a.txt'' (Some ''data/a.txt'') = Some (Error ''access denied'')"
    by (simp add: uploadFailsClient_def okClient_def)
  have a: "uploadLoop openFailsEnv (okClient []) twoFilesIterator emptyWorld []
       = (Inr ([], afterFailedOpen twoFilesIterator ''data/a.txt'' ''a.txt'' permissionDenied),
          emit (OpenCall ''data/a.txt'' (Some permissionDenied)) emptyWorld)"
    using upload_failures [OF h1 h2, of openFailsEnv emptyWorld permissionDenied "okClient []" "[]"]
      o1 by blast
  note b = upload_failures [OF h1 h2, of uploadFailsEnv emptyWorld
        "Error ''access denied''" uploadFailsClient "[]"]
  have b1: "filePaths (afterOpen twoFilesIterator ''data/a.txt'' ''a.txt'') = [''data/b.txt'']"
    using b o2 u2 by blast
  obtain iterF w' where run:
    "uploadLoop uploadFailsEnv uploadFailsClient twoFilesIterator emptyWorld []
      = (Inr ([(Error ''access denied'', IterBucketPtr, IterNextKeyPtr)], iterF), w')"
    using uploadLoop_upload_fails_run by blast
  have b2: "take (Suc (length ([] :: uploadError list)))
            [(Error ''access denied'', IterBucketPtr, IterNextKeyPtr)]
          = [] @ [(Error ''access denied'', IterBucketPtr, IterNextKeyPtr)]
        \<and> deref iterF IterBucketPtr = iterBucket twoFilesIterator"
    using b o2 u2 run by blast
  show ?thesis
    using h1 h2 o1 o2 u2 a b1 b2 run by blast
qed

section \<open>Properties of the transfer context\<close>

lemma TestDownloadEmptyBucket_second_half:
  "fst (Bucket_DownloadBucket (okEnv [] noTree) (NewBucket (okClient []) ''Dir'' ''Bucket'') None
        emptyWorld) = Inr None"
  by (simp add: Bucket_DownloadBucket_def NewBucket_def DownloadBucket_def okClient_def)

text \<open>
  C3. Every transfer operation (download or upload) on a transfer context with no client
  returns the error "client not configured", the message \<open>messageClientNotDefined\<close>, at
  once: the state is the one before the call, so no network call and no file system call
  was made.
\<close>

theorem no_client_no_calls:
  assumes "bucketClient b = None"
  shows "Bucket_DownloadBucket env b excludePattern w
           = (Inr (Some (Error messageClientNotDefined)), w)
       \<and> Bucket_UploadBucket env b w = (Inr (Some (Error messageClientNotDefined)), w)"
  using assms by (simp add: Bucket_DownloadBucket_def Bucket_UploadBucket_def)

theorem no_client_no_calls_witness:
  "bucketClient zeroBucket = None
   \<and> Bucket_DownloadBucket (okEnv [''a.txt''] twoFilesTree) zeroBucket None emptyWorld
       = (Inr (Some (Error ''Aws Client not defined'')), emptyWorld)
   \<and> Bucket_UploadBucket (okEnv [''a.txt''] twoFilesTree) zeroBucket emptyWorld
       = (Inr (Some (Error ''Aws Client not defined'')), emptyWorld)
   \<and> trace emptyWorld = []"
proof -
  have h: "bucketClient zeroBucket = None"
    by (simp add: zeroBucket_def)
  show ?thesis
    using no_client_no_calls [OF h, of "okEnv [''a.txt''] twoFilesTree" None emptyWorld] h
    by (simp add: messageClientNotDefined_def emptyWorld_def)
qed

end
